theory Spec2Isabelle
  imports
    Main
    "HOL-Library.Monad_Syntax"
    "HOL-Library.Char_ord"
    "HOL-Library.List_Lexorder"
begin

section \<open>JavaScript values and array operations used by the extension\<close>

text \<open>
  Lengths, sizes and indices are JavaScript numbers holding whole pixels and whole
  counts; they are modelled as \<open>int\<close>. \<open>Math.floor (a / b)\<close> is \<open>a div b\<close> (HOL's
  integer division rounds towards minus infinity) and \<open>Math.ceil (a / b)\<close> is
  \<open>- ((- a) div b)\<close>, for a divisor different from zero.
\<close>

definition js_ceil_div :: "int \<Rightarrow> int \<Rightarrow> int" where
  "js_ceil_div a b = - ((- a) div b)"

text \<open>The remainder operator \<open>%\<close>: the result takes the sign of the dividend.\<close>

definition js_rem :: "int \<Rightarrow> int \<Rightarrow> int" where
  "js_rem a b = sgn a * (\<bar>a\<bar> mod \<bar>b\<bar>)"

text \<open>\<open>x || d\<close> on numbers: zero is falsy.\<close>

definition js_or :: "int \<Rightarrow> int \<Rightarrow> int" where
  "js_or x d = (if x \<noteq> 0 then x else d)"

text \<open>\<open>x ? x : d\<close> on a number that may be \<open>undefined\<close>.\<close>

definition js_truthy_or :: "int option \<Rightarrow> int \<Rightarrow> int" where
  "js_truthy_or x d = (case x of None \<Rightarrow> d | Some v \<Rightarrow> if v \<noteq> 0 then v else d)"

text \<open>\<open>Array.prototype.indexOf\<close>: the first position holding the value, \<open>-1\<close> when absent.\<close>

fun indexOf :: "'a list \<Rightarrow> 'a \<Rightarrow> int" where
  "indexOf [] y = -1"
| "indexOf (x # xs) y = (if x = y then 0 else (let r = indexOf xs y in if r < 0 then -1 else r + 1))"

text \<open>
  \<open>Array.prototype.splice\<close>: a negative start counts from the end (not below zero), a
  start beyond the end is the end.
\<close>

definition splice_start :: "'a list \<Rightarrow> int \<Rightarrow> nat" where
  "splice_start xs start =
     (let n = int (length xs) in
      if start < 0 then nat (max (n + start) 0) else nat (min start n))"

definition splice_delete1 :: "'a list \<Rightarrow> int \<Rightarrow> 'a list" where
  "splice_delete1 xs start = (let k = splice_start xs start in take k xs @ drop (Suc k) xs)"

definition splice_insert :: "'a list \<Rightarrow> int \<Rightarrow> 'a \<Rightarrow> 'a list" where
  "splice_insert xs start x = (let k = splice_start xs start in take k xs @ x # drop k xs)"

text \<open>
  \<open>Array.prototype.sort\<close> with a comparison function, the way the engine of GJS
  (SpiderMonkey) sorts: each element in turn moves left past every element \<open>swap\<close>
  with \<open>comparefn (swap, item) > 0\<close>. \<open>sort_insert\<close> takes the sorted part from
  right to left. For a consistent comparison function this is the stable sort that
  the language prescribes; for a comparison function that answers with a boolean
  (\<open>true\<close> is 1 and \<open>false\<close> is 0 as a number) the language leaves the order to the
  engine. The engine merges runs on longer arrays, with the same test \<open>\<le> 0\<close>, which
  gives the same order whenever that test is a total preorder.
\<close>

fun sort_insert :: "('a \<Rightarrow> 'a \<Rightarrow> int) \<Rightarrow> 'a \<Rightarrow> 'a list \<Rightarrow> 'a list" where
  "sort_insert comparefn item [] = [item]"
| "sort_insert comparefn item (swap # rest) =
     (if comparefn swap item \<le> 0 then item # swap # rest
      else swap # sort_insert comparefn item rest)"

definition js_sort :: "('a \<Rightarrow> 'a \<Rightarrow> int) \<Rightarrow> 'a list \<Rightarrow> 'a list" where
  "js_sort comparefn xs = rev (foldl (\<lambda>sorted item. sort_insert comparefn item sorted) [] xs)"

text \<open>
  What is assumed of \<open>localeCompare\<close>: "not after" (a result \<open>\<le> 0\<close>) is a total
  preorder on names.
\<close>

definition consistent_comparator :: "('a \<Rightarrow> 'a \<Rightarrow> int) \<Rightarrow> bool" where
  "consistent_comparator comparefn \<longleftrightarrow>
     (\<forall>a b. comparefn a b \<le> 0 \<or> comparefn b a \<le> 0)
     \<and> (\<forall>a b c. comparefn a b \<le> 0 \<and> comparefn b c \<le> 0 \<longrightarrow> comparefn a c \<le> 0)"

text \<open>
  Strings are lists of characters, compared as JavaScript compares strings with \<open>>\<close>:
  character by character, by code. \<open>toLowerCase\<close> is modelled on the ASCII letters
  (other characters stay), \<open>trim\<close> on the ASCII white space.
\<close>

definition lower_char :: "char \<Rightarrow> char" where
  "lower_char c = (if CHR ''A'' \<le> c \<and> c \<le> CHR ''Z'' then char_of (of_char c + (32::nat)) else c)"

definition toLowerCase :: "string \<Rightarrow> string" where
  "toLowerCase s = map lower_char s"

definition startsWith :: "string \<Rightarrow> string \<Rightarrow> bool" where
  "startsWith s p = (take (length p) s = p)"

definition is_space :: "char \<Rightarrow> bool" where
  "is_space c = (c \<in> set [CHR '' '', CHR 0x09, CHR 0x0A, CHR 0x0B, CHR 0x0C, CHR 0x0D])"

definition trim :: "string \<Rightarrow> string" where
  "trim s = rev (dropWhile is_space (rev (dropWhile is_space s)))"

section \<open>Widgets\<close>

text \<open>
  The value of an item's \<open>icon\<close> property: an instance of \<open>BaseIcon\<close> (with its
  label), or anything else.
\<close>

datatype icon_obj = BaseIcon string | NotBaseIcon

fun instanceof_BaseIcon :: "icon_obj \<Rightarrow> bool" where
  "instanceof_BaseIcon (BaseIcon l) = True"
| "instanceof_BaseIcon NotBaseIcon = False"

text \<open>
  A \<open>Shell.App\<close>, as far as the extension reads it: \<open>get_id ()\<close>, \<open>get_name ()\<close> and
  \<open>get_app_info ().get_desktop_file_id ()\<close>. The last one throws when there is no
  application information; a \<open>null\<close> identifier is the empty string here (both are
  falsy).
\<close>

datatype desktop_lookup = Throws | DesktopFileId string

record shell_app =
  get_id :: string
  get_name :: string
  get_desktop_file_id :: desktop_lookup

text \<open>
  An icon placed in the grid (an \<open>AppIcon\<close>, or any actor with the same properties).
  \<open>ref\<close> is the identity of the object: \<open>indexOf\<close> compares objects by identity, and
  two different objects differ in \<open>ref\<close>.
\<close>

record item =
  ref :: nat
  app :: shell_app
  item_id :: string
  name :: string
  icon :: icon_obj
  visible :: bool

datatype DirectionType = TAB_FORWARD | TAB_BACKWARD | UP | DOWN | LEFT | RIGHT

text \<open>
  The actors that take part in focusing: the screen's \<open>actor\<close>, its \<open>apps\<close> (the
  \<open>AppGrid\<close>) and \<open>list\<close> (the \<open>ListViewManager\<close>), the \<open>AppView\<close> inside
  \<open>apps\<close>, the main \<open>MenuList\<close> inside \<open>list\<close>, and a focusable actor somewhere
  inside one of these.
\<close>

datatype widget =
    ScreenActor | AppsWidget | ListWidget | AppViewWidget | MainMenuList | FocusInside widget

text \<open>
  The closures handed to \<open>Meta.later_add\<close>: the one of \<open>IconGrid.adaptToSize\<close>, the one of
  \<open>MouselessScreen._grabFocus\<close> (with the actor and the direction it captured) and the one
  of \<open>MenuList._moveFocusToItems\<close>.
\<close>

datatype later_callback =
    UpdateIconSizes
  | GrabFocusRetry widget DirectionType
  | MoveFocusToItems

text \<open>
  \<open>Meta.later_add (Meta.LaterType.BEFORE_REDRAW, f)\<close>: the callbacks waiting for the
  next redraw, each under the identifier that was handed out for it. Identifiers are
  positive.
\<close>

record meta_later =
  last_later_id :: nat
  pending :: "(nat \<times> later_callback) list"

definition later_add :: "meta_later \<Rightarrow> later_callback \<Rightarrow> nat \<times> meta_later" where
  "later_add m f =
     (let i = Suc (last_later_id m) in (i, m\<lparr>last_later_id := i, pending := pending m @ [(i, f)]\<rparr>))"

definition later_remove :: "meta_later \<Rightarrow> nat \<Rightarrow> meta_later" where
  "later_remove m i = m\<lparr>pending := filter (\<lambda>p. fst p \<noteq> i) (pending m)\<rparr>"

section \<open>IconGrid (iconGrid.js)\<close>

definition ICON_SIZE :: int where "ICON_SIZE = 160"
definition MIN_ICON_SIZE :: int where "MIN_ICON_SIZE = 16"

text \<open>
  The fields of \<open>IconGrid\<close> that the layout, \<open>addItem\<close> and \<open>navigate_focus\<close> read or
  write. \<open>spacing\<close>, \<open>hItemSize\<close> and \<open>vItemSize\<close> are the values taken from the theme
  (\<open>_spacing\<close>, \<open>_hItemSize\<close>, \<open>_vItemSize\<close>); the \<open>fixed\<close> fields start out
  \<open>undefined\<close>. \<open>children\<close> are the actor's children in order, \<open>gridWidth\<close> is
  \<open>allocation.x2 - allocation.x1\<close>, \<open>scale_factor\<close> the theme context's scale factor.
\<close>

record icon_grid =
  rowLimit :: "int option"
  colLimit :: "int option"
  minRows :: int
  minColumns :: int
  padWithSpacing :: bool
  topPadding :: int
  bottomPadding :: int
  rightPadding :: int
  leftPadding :: int
  updateIconSizesLaterId :: nat
  items :: "item list"
  spacing :: int
  hItemSize :: int
  vItemSize :: int
  fixedSpacing :: "int option"
  fixedHItemSize :: "int option"
  fixedVItemSize :: "int option"
  nonIconWidth :: int
  nonIconHeight :: int
  children :: "item list"
  gridWidth :: int
  scale_factor :: int

definition getSpacing :: "icon_grid \<Rightarrow> int" where
  "getSpacing g = js_truthy_or (fixedSpacing g) (spacing g)"

definition getHItemSize :: "icon_grid \<Rightarrow> int" where
  "getHItemSize g = js_truthy_or (fixedHItemSize g) (hItemSize g)"

definition getVItemSize :: "icon_grid \<Rightarrow> int" where
  "getVItemSize g = js_truthy_or (fixedVItemSize g) (vItemSize g)"

definition setSpacing :: "icon_grid \<Rightarrow> int \<Rightarrow> icon_grid" where
  "setSpacing g s = g\<lparr>fixedSpacing := Some s\<rparr>"

definition getVisibleChildren :: "icon_grid \<Rightarrow> item list" where
  "getVisibleChildren g = filter visible (children g)"

text \<open>
  The \<open>while\<close> loop of \<open>_computeLayout\<close>. Nothing in the loop bounds the number of
  rounds when there is no column limit and a column adds no width, so the loop is a
  partial function: \<open>None\<close> is "does not return".
\<close>

partial_function (option) computeLayout_loop ::
  "int option \<Rightarrow> int \<Rightarrow> int \<Rightarrow> int \<Rightarrow> int \<Rightarrow> int \<Rightarrow> (int \<times> int) option"
where
  "computeLayout_loop lim hItem sp forWidth nColumns usedWidth =
     (if (case lim of None \<Rightarrow> True | Some l \<Rightarrow> nColumns < l) \<and> usedWidth + hItem \<le> forWidth
      then computeLayout_loop lim hItem sp forWidth (nColumns + 1) (usedWidth + (hItem + sp))
      else Some (nColumns, usedWidth))"

definition computeLayout :: "icon_grid \<Rightarrow> int \<Rightarrow> (int \<times> int) option" where
  "computeLayout g forWidth =
     (let spacing = getSpacing g in
      do {
        (nColumns, usedWidth) \<leftarrow>
          computeLayout_loop (colLimit g) (getHItemSize g) spacing forWidth 0
            (leftPadding g + rightPadding g);
        Some (nColumns, if nColumns > 0 then usedWidth - spacing else usedWidth)
      })"

definition columnsForWidth :: "icon_grid \<Rightarrow> int \<Rightarrow> int option" where
  "columnsForWidth g rowWidth = map_option fst (computeLayout g rowWidth)"

definition rowsForHeight :: "icon_grid \<Rightarrow> int \<Rightarrow> int" where
  "rowsForHeight g forHeight =
     (forHeight - (topPadding g + bottomPadding g) + getSpacing g)
       div (getVItemSize g + getSpacing g)"

definition usedHeightForNRows :: "icon_grid \<Rightarrow> int \<Rightarrow> int" where
  "usedHeightForNRows g nRows =
     (getVItemSize g + getSpacing g) * nRows - getSpacing g + topPadding g + bottomPadding g"

definition usedWidthForNColumns :: "icon_grid \<Rightarrow> int \<Rightarrow> int" where
  "usedWidthForNColumns g columns =
     (let usedWidth = columns * (getHItemSize g + getSpacing g);
          usedWidth = usedWidth - getSpacing g
      in usedWidth + leftPadding g + rightPadding g)"

text \<open>
  \<open>_updateSpacingForSize\<close>. \<open>spacingForSize\<close> is the value of its local variable
  \<open>spacing\<close>, computed from what the function reads: \<open>_minRows\<close>, \<open>_minColumns\<close>,
  \<open>_padWithSpacing\<close>, the theme's spacing \<open>_spacing\<close>, and the item sizes
  \<open>_getVItemSize ()\<close> and \<open>_getHItemSize ()\<close>.
\<close>

definition spacingForSize ::
  "int \<Rightarrow> int \<Rightarrow> bool \<Rightarrow> int \<Rightarrow> int \<Rightarrow> int \<Rightarrow> int \<Rightarrow> int \<Rightarrow> int"
where
  "spacingForSize nRows nColumns pad cssSpacing vItem hItem availWidth availHeight =
     (let maxEmptyVArea = availHeight - nRows * vItem;
          maxEmptyHArea = availWidth - nColumns * hItem;
          maxVSpacing =
            (if pad then maxEmptyVArea div (nRows + 1)
             else if nRows \<le> 1 then maxEmptyVArea
             else maxEmptyVArea div (nRows - 1));
          maxHSpacing =
            (if pad then maxEmptyHArea div (nColumns + 1)
             else if nColumns \<le> 1 then maxEmptyHArea
             else maxEmptyHArea div (nColumns - 1));
          maxSpacing = min maxHSpacing maxVSpacing;
          maxSpacing = min maxSpacing (min vItem hItem)
      in max cssSpacing maxSpacing)"

definition updateSpacingForSize :: "icon_grid \<Rightarrow> int \<Rightarrow> int \<Rightarrow> icon_grid" where
  "updateSpacingForSize g availWidth availHeight =
     (let sp = spacingForSize (minRows g) (minColumns g) (padWithSpacing g) (spacing g)
                 (getVItemSize g) (getHItemSize g) availWidth availHeight;
          g = setSpacing g sp
      in if padWithSpacing g
         then g\<lparr>topPadding := sp, rightPadding := sp, bottomPadding := sp, leftPadding := sp\<rparr>
         else g)"

text \<open>
  \<open>adaptToSize\<close>, in the three parts of its body. First the item sizes are reset to
  the theme's, the spacing is computed for them, and the part of an item that is not
  icon is measured.
\<close>

definition adaptToSize_reset :: "icon_grid \<Rightarrow> int \<Rightarrow> int \<Rightarrow> icon_grid" where
  "adaptToSize_reset g availWidth availHeight =
     (let g = g\<lparr>fixedHItemSize := Some (hItemSize g)\<rparr>;
          g = g\<lparr>fixedVItemSize := Some (vItemSize g)\<rparr>;
          g = updateSpacingForSize g availWidth availHeight;
          scaleFactor = scale_factor g;
          g = g\<lparr>nonIconWidth := max 0 (hItemSize g - scaleFactor * ICON_SIZE)\<rparr>;
          g = g\<lparr>nonIconHeight := max 0 (vItemSize g - scaleFactor * ICON_SIZE)\<rparr>
      in g)"

text \<open>
  The body of the \<open>if\<close>: the items shrink by \<open>neededSpacePerItem\<close>, not below the
  smallest icon, and the spacing is computed again.
\<close>

definition neededSpacePerItem :: "icon_grid \<Rightarrow> int \<Rightarrow> int \<Rightarrow> int" where
  "neededSpacePerItem g availWidth availHeight =
     (let neededWidth = usedWidthForNColumns g (minColumns g) - availWidth;
          neededHeight = usedHeightForNRows g (minRows g) - availHeight
      in if neededWidth > neededHeight
         then js_ceil_div neededWidth (minColumns g)
         else js_ceil_div neededHeight (minRows g))"

definition adaptToSize_shrink :: "icon_grid \<Rightarrow> int \<Rightarrow> int \<Rightarrow> icon_grid" where
  "adaptToSize_shrink g availWidth availHeight =
     (let scaleFactor = scale_factor g;
          needed = neededSpacePerItem g availWidth availHeight;
          g = g\<lparr>fixedHItemSize :=
                Some (max (hItemSize g - needed) (nonIconWidth g + scaleFactor * MIN_ICON_SIZE))\<rparr>;
          g = g\<lparr>fixedVItemSize :=
                Some (max (vItemSize g - needed) (nonIconHeight g + scaleFactor * MIN_ICON_SIZE))\<rparr>
      in updateSpacingForSize g availWidth availHeight)"

text \<open>The end: the icon sizes are updated before the next redraw, unless that is already due.\<close>

definition adaptToSize_later :: "icon_grid \<times> meta_later \<Rightarrow> icon_grid \<times> meta_later" where
  "adaptToSize_later gm =
     (let g = fst gm; m = snd gm in
      if updateIconSizesLaterId g = 0
      then (let r = later_add m UpdateIconSizes
            in (g\<lparr>updateIconSizesLaterId := fst r\<rparr>, snd r))
      else (g, m))"

text \<open>
  \<open>adaptToSize\<close> on the grid and the pending redraw callbacks. It returns when
  \<open>columnsForWidth\<close> does (the second operand of \<open>||\<close> always returns).
\<close>

definition adaptToSize ::
  "icon_grid \<times> meta_later \<Rightarrow> int \<Rightarrow> int \<Rightarrow> (icon_grid \<times> meta_later) option"
where
  "adaptToSize gm availWidth availHeight =
     (let g = adaptToSize_reset (fst gm) availWidth availHeight in
      do {
        cols \<leftarrow> columnsForWidth g availWidth;
        let g = (if cols < minColumns g \<or> rowsForHeight g availHeight < minRows g
                 then adaptToSize_shrink g availWidth availHeight
                 else g);
        Some (adaptToSize_later (g, snd gm))
      })"

text \<open>
  \<open>addItem\<close>: the grid afterwards, and the error thrown if any. \<open>index\<close> is \<open>None\<close>
  when the argument is \<open>undefined\<close>. \<open>insert_child_at_index\<close> is Clutter's: the child
  goes to the given position, to the end when the index is negative or beyond the
  last child; \<open>add_actor\<close> appends.
\<close>

datatype js_error = Error string

definition insert_child_at_index :: "item list \<Rightarrow> item \<Rightarrow> int \<Rightarrow> item list" where
  "insert_child_at_index cs c i =
     (if i < 0 then cs @ [c] else take (nat i) cs @ c # drop (nat i) cs)"

definition addItem :: "icon_grid \<Rightarrow> item \<Rightarrow> int option \<Rightarrow> icon_grid \<times> js_error option" where
  "addItem g it index =
     (if \<not> instanceof_BaseIcon (icon it)
      then (g, Some (Error ''Only items with a BaseIcon icon property can be added to IconGrid''))
      else
        (let g = g\<lparr>items := items g @ [it]\<rparr>
         in (case index of
               Some i \<Rightarrow> g\<lparr>children := insert_child_at_index (children g) it i\<rparr>
             | None \<Rightarrow> g\<lparr>children := children g @ [it]\<rparr>,
             None)))"

text \<open>
  What \<open>navigate_focus\<close> does: \<open>GrabKeyFocus i\<close> is "\<open>children[i].grab_key_focus()\<close>,
  return \<open>true\<close>" (\<open>children\<close> being the visible children), \<open>NoFocus\<close> is "return
  \<open>false\<close>".
\<close>

datatype nav_result = NoFocus | GrabKeyFocus nat

text \<open>
  The part of \<open>navigate_focus\<close> after the current child was found at \<open>idx\<close>: \<open>n\<close> is
  \<open>children.length\<close> and \<open>layout0\<close> is \<open>layout[0]\<close>. Reading \<open>children[newIndex]\<close>
  outside the array gives \<open>undefined\<close>, which is falsy.
\<close>

definition navigate_target :: "int \<Rightarrow> DirectionType \<Rightarrow> bool \<Rightarrow> int \<Rightarrow> int \<Rightarrow> nav_result" where
  "navigate_target idx direction wrap n layout0 =
     (let nColumns = js_or layout0 1;
          newIndex =
            (case direction of
               LEFT \<Rightarrow>
                 (let newIndex = idx - 1
                  in Some (if newIndex < 0 then (if wrap then n - 1 else 0) else newIndex))
             | RIGHT \<Rightarrow>
                 (let newIndex = idx + 1
                  in Some (if newIndex \<ge> n then (if wrap then 0 else n - 1) else newIndex))
             | UP \<Rightarrow>
                 (let newIndex = idx - nColumns
                  in Some (if newIndex < 0
                           then (let newIndex = js_rem idx nColumns;
                                     lastRow = (n - 1) div nColumns;
                                     newIndex = newIndex + lastRow * nColumns
                                 in if newIndex \<ge> n then newIndex - nColumns else newIndex)
                           else newIndex))
             | DOWN \<Rightarrow>
                 (let newIndex = idx + nColumns
                  in Some (if newIndex \<ge> n then js_rem idx nColumns else newIndex))
             | _ \<Rightarrow> None)
      in case newIndex of
           None \<Rightarrow> NoFocus
         | Some i \<Rightarrow> if 0 \<le> i \<and> i < n then GrabKeyFocus (nat i) else NoFocus)"

text \<open>
  \<open>navigate_focus (current, direction, wrap)\<close>; \<open>current\<close> is \<open>None\<close> for \<open>null\<close>.
  The outer \<open>option\<close> is the return of \<open>_computeLayout\<close>.
\<close>

definition navigate_focus ::
  "icon_grid \<Rightarrow> item option \<Rightarrow> DirectionType \<Rightarrow> bool \<Rightarrow> nav_result option"
where
  "navigate_focus g current direction wrap =
     (let children = getVisibleChildren g in
      if children = [] then Some NoFocus
      else
        (let idx = (case current of None \<Rightarrow> -1 | Some c \<Rightarrow> indexOf children c) in
         if idx < 0 then Some (GrabKeyFocus 0)
         else do {
           layout \<leftarrow> computeLayout g (gridWidth g);
           Some (navigate_target idx direction wrap (int (length children)) (fst layout))
         }))"

section \<open>AppView (appGrid.js)\<close>

datatype clutter_event = EVENT_PROPAGATE | EVENT_STOP

text \<open>
  The fields of \<open>AppView\<close>: its grid, \<open>_orderedItems\<close>, the \<open>_items\<close> map from id
  to icon, \<open>_lastFocused\<close> and \<open>_viewIsReady\<close>.
\<close>

record app_view =
  grid :: icon_grid
  orderedItems :: "item list"
  items_map :: "string \<rightharpoonup> item"
  lastFocused :: "item option"
  viewIsReady :: bool

text \<open>
  A value of \<open>event.movementDirection\<close> is \<open>undefined\<close> (\<open>None\<close>) or a member of
  \<open>St.DirectionType\<close>, whose first member \<open>TAB_FORWARD\<close> is the number 0 and so is
  falsy.
\<close>

fun direction_truthy :: "DirectionType option \<Rightarrow> bool" where
  "direction_truthy None = False"
| "direction_truthy (Some TAB_FORWARD) = False"
| "direction_truthy (Some d) = True"

text \<open>
  \<open>movement (actor, event)\<close>: the value returned to Clutter and, when
  \<open>navigate_focus\<close> was called, what it did.
\<close>

definition movement ::
  "app_view \<Rightarrow> DirectionType option \<Rightarrow> (clutter_event \<times> nav_result option) option"
where
  "movement av direction =
     (if direction_truthy direction \<and> lastFocused av \<noteq> None
      then do {
        r \<leftarrow> navigate_focus (grid av) (lastFocused av) (the direction) False;
        Some (EVENT_STOP, Some r)
      }
      else Some (EVENT_PROPAGATE, None))"

text \<open>
  \<open>new AppIcon (app)\<close> for a \<open>Shell.App\<close>; \<open>r\<close> is the identity of the new object.
  \<open>BaseAppIcon._init\<close> gives every icon a \<open>BaseIcon\<close> labelled with its name.
\<close>

definition AppIcon :: "nat \<Rightarrow> shell_app \<Rightarrow> item" where
  "AppIcon r a =
     (let name = get_name a;
          id = get_id a;
          id = (if startsWith id ''window:''
                then (case get_desktop_file_id a of
                        DesktopFileId desktopId \<Rightarrow> if desktopId \<noteq> [] then desktopId else id
                      | Throws \<Rightarrow> id)
                else id)
      in \<lparr>ref = r, app = a, item_id = id, name = name, icon = BaseIcon name, visible = True\<rparr>)"

text \<open>\<open>getRunningAppId (app)\<close>; \<open>None\<close> is \<open>null\<close>.\<close>

definition getRunningAppId :: "shell_app \<Rightarrow> string option" where
  "getRunningAppId a =
     (let rawId = toLowerCase (get_id a) in
      if startsWith rawId ''window:''
      then (case get_desktop_file_id a of
              Throws \<Rightarrow> None
            | DesktopFileId desktopId \<Rightarrow>
                if desktopId \<noteq> [] \<and> trim desktopId \<noteq> [] then Some (toLowerCase desktopId)
                else Some rawId)
      else Some rawId)"

subsection \<open>\<open>AppBackend.getAllApps\<close> (appBackend.js)\<close>

text \<open>
  \<open>getAllApps\<close> sorts what \<open>_allApps ()\<close> returns, with a comparison function whose
  result is the boolean \<open>a.get_name ().toLowerCase () > b.get_name ().toLowerCase ()\<close>.
\<close>

definition getAllApps :: "shell_app list \<Rightarrow> shell_app list" where
  "getAllApps allApps =
     js_sort (\<lambda>a b. if toLowerCase (get_name a) > toLowerCase (get_name b) then 1 else 0) allApps"

subsection \<open>\<open>_loadApps\<close>\<close>

text \<open>
  The inputs of \<open>_loadApps\<close>: \<open>backend\<close> is what \<open>getAllApps ()\<close> returns, or
  \<open>None\<close> when the backend is missing and cannot be created; \<open>windowApps\<close> holds, for
  each window actor, the id of the application that \<open>lookup_app\<close> finds for its
  window class (\<open>None\<close> when it finds none); \<open>favoriteKeys\<close> are the keys of the
  favorite map, in its order; \<open>localeCompare\<close> is the comparison of two names in the
  user's locale; \<open>r0\<close> is the identity of the first icon created.
\<close>

definition loadApps_icons :: "nat \<Rightarrow> shell_app list \<Rightarrow> item list" where
  "loadApps_icons r0 backendApps = map (\<lambda>(i, a). AppIcon (r0 + i) a) (enumerate 0 backendApps)"

definition loadApps_runningAppIds :: "string option list \<Rightarrow> string list" where
  "loadApps_runningAppIds windowApps =
     filter (\<lambda>id. length id > 0)
       (map (\<lambda>runningApp. case runningApp of Some appId \<Rightarrow> toLowerCase appId | None \<Rightarrow> []) windowApps)"

definition favIcons :: "item list \<Rightarrow> string list \<Rightarrow> item list" where
  "favIcons icons favoriteAppIds =
     List.map_filter (\<lambda>id. find (\<lambda>icon. toLowerCase (item_id icon) = id) icons) favoriteAppIds"

definition runningIcons :: "item list \<Rightarrow> string list \<Rightarrow> string list \<Rightarrow> item list" where
  "runningIcons icons runningAppIds favoriteAppIds =
     filter (\<lambda>icon. case getRunningAppId (app icon) of
                       None \<Rightarrow> False
                     | Some appId \<Rightarrow> appId \<in> set runningAppIds \<and> appId \<notin> set favoriteAppIds) icons"

definition otherIcons ::
  "(string \<Rightarrow> string \<Rightarrow> int) \<Rightarrow> item list \<Rightarrow> string list \<Rightarrow> string list \<Rightarrow> item list"
where
  "otherIcons localeCompare icons runningAppIds favoriteAppIds =
     js_sort (\<lambda>a b. localeCompare (name a) (name b))
       (filter (\<lambda>icon. let id = toLowerCase (item_id icon)
                        in id \<notin> set favoriteAppIds \<and> id \<notin> set runningAppIds) icons)"

definition loadApps ::
  "(string \<Rightarrow> string \<Rightarrow> int) \<Rightarrow> nat \<Rightarrow> shell_app list option \<Rightarrow> string option list
     \<Rightarrow> string list \<Rightarrow> item list"
where
  "loadApps localeCompare r0 backend windowApps favoriteKeys =
     (case backend of
        None \<Rightarrow> []
      | Some backendApps \<Rightarrow>
          (let icons = loadApps_icons r0 backendApps;
               runningAppIds = loadApps_runningAppIds windowApps;
               favoriteAppIds = map toLowerCase favoriteKeys;
               favs = favIcons icons favoriteAppIds;
               running = runningIcons icons runningAppIds favoriteAppIds;
               others = otherIcons localeCompare icons runningAppIds favoriteAppIds;
               sortedIcons = [];
               sortedIcons = (if length favs \<noteq> 0 then sortedIcons @ favs else sortedIcons);
               sortedIcons = (if length running \<noteq> 0 then sortedIcons @ running else sortedIcons);
               sortedIcons = (if length others \<noteq> 0 then sortedIcons @ others else sortedIcons)
           in sortedIcons))"

subsection \<open>\<open>_redisplay\<close>\<close>

text \<open>
  \<open>icon.destroy ()\<close> takes the actor out of the grid's children. The grid's own
  \<open>_items\<close> array is not touched by it.
\<close>

definition destroy_icon :: "icon_grid \<Rightarrow> item \<Rightarrow> icon_grid" where
  "destroy_icon g ic = g\<lparr>children := remove1 ic (children g)\<rparr>"

definition addedApps :: "item list \<Rightarrow> item list \<Rightarrow> item list" where
  "addedApps oldApps newApps =
     (let oldAppIds = map item_id oldApps
      in filter (\<lambda>ic. item_id ic \<notin> set oldAppIds) newApps)"

definition removedApps :: "item list \<Rightarrow> item list \<Rightarrow> item list" where
  "removedApps oldApps newApps =
     (let newAppIds = map item_id newApps
      in filter (\<lambda>ic. item_id ic \<notin> set newAppIds) oldApps)"

definition redisplay_remove :: "app_view \<Rightarrow> item \<Rightarrow> app_view" where
  "redisplay_remove av ic =
     (let iconIndex = indexOf (orderedItems av) ic;
          id = item_id ic
      in av\<lparr>orderedItems := splice_delete1 (orderedItems av) iconIndex,
            grid := destroy_icon (grid av) ic,
            items_map := (items_map av)(id := None)\<rparr>)"

text \<open>
  One round of the second \<open>forEach\<close>. An error thrown by \<open>addItem\<close> ends
  \<open>_redisplay\<close>: the rounds after it do nothing.
\<close>

definition redisplay_add ::
  "item list \<Rightarrow> app_view \<times> js_error option \<Rightarrow> item \<Rightarrow> app_view \<times> js_error option"
where
  "redisplay_add newApps st ic =
     (case snd st of
        Some e \<Rightarrow> st
      | None \<Rightarrow>
          (let av = fst st;
               iconIndex = indexOf newApps ic;
               av = av\<lparr>orderedItems := splice_insert (orderedItems av) iconIndex ic\<rparr>;
               r = addItem (grid av) ic (Some iconIndex);
               av = av\<lparr>grid := fst r\<rparr>
           in case snd r of
                Some e \<Rightarrow> (av, Some e)
              | None \<Rightarrow> (av\<lparr>items_map := (items_map av)(item_id ic \<mapsto> ic)\<rparr>, None)))"

text \<open>\<open>_redisplay\<close>, with \<open>newApps\<close> standing for what \<open>this._loadApps ()\<close> returned.\<close>

definition redisplay :: "app_view \<Rightarrow> item list \<Rightarrow> app_view \<times> js_error option" where
  "redisplay av newApps =
     (let oldApps = orderedItems av;
          added = addedApps oldApps newApps;
          removed = removedApps oldApps newApps;
          av = foldl redisplay_remove av removed;
          r = foldl (redisplay_add newApps) (av, None) added
      in case snd r of
           Some e \<Rightarrow> r
         | None \<Rightarrow> ((fst r)\<lparr>viewIsReady := True\<rparr>, None))"

section \<open>MouselessScreen (screen.js) and MenuList\<close>

datatype view_name = list_view | apps_view

datatype app_state = STOPPED | STARTING | RUNNING

text \<open>
  The state of the interface between its construction and \<open>destroy ()\<close> (so
  \<open>this.actor\<close> and \<open>this.lightbox\<close> are not \<open>null\<close>): the fields of \<open>MouselessScreen\<close>
  and of its \<open>ViewManager\<close>, the properties of its actors that the code sets, the
  keys of the main menu list's \<open>_items\<close>, the actor holding the stage's key focus,
  and the callbacks waiting for the next redraw. \<open>nav_log\<close> records every call of an
  actor's \<open>navigate_focus (null, direction, false)\<close>.

  Two fields stand for what the shell decides: \<open>pushModal_result\<close> says whether
  \<open>Main.pushModal\<close> hands out a grab, \<open>can_focus\<close> whether the toolkit finds something
  to focus inside an actor (it finds nothing before the first layout).
\<close>

record ui_state =
  isShown :: bool
  modalToken :: bool
  nAppsRunning :: nat
  actor_visible :: bool
  actor_opacity :: nat
  actor_ease_to :: "nat option"
  lightbox_visible :: bool
  lightbox_handlers :: nat
  notifications :: nat
  list_visible :: bool
  apps_visible :: bool
  currentView :: "view_name option"
  menu_items :: "string list"
  stage_key_focus :: "widget option"
  nav_log :: "(widget \<times> DirectionType) list"
  laters :: meta_later
  pushModal_result :: bool
  can_focus :: "widget \<Rightarrow> bool"

text \<open>
  \<open>St.Widget.navigate_focus (null, direction, false)\<close> on a container: when it finds
  a focusable actor inside, that actor takes the key focus and the result is \<open>true\<close>.
\<close>

definition st_navigate_focus :: "ui_state \<Rightarrow> widget \<Rightarrow> DirectionType \<Rightarrow> ui_state \<times> bool" where
  "st_navigate_focus s w direction =
     (let s = s\<lparr>nav_log := nav_log s @ [(w, direction)]\<rparr> in
      if can_focus s w then (s\<lparr>stage_key_focus := Some (FocusInside w)\<rparr>, True)
      else (s, False))"

text \<open>
  \<open>ListViewManager\<close> overrides \<open>vfunc_navigate_focus\<close>: it calls the inherited one, then
  \<open>navigate_focus\<close> of its main view, and returns nothing, which is \<open>false\<close> to the
  caller.
\<close>

definition navigate_focus_of :: "ui_state \<Rightarrow> widget \<Rightarrow> DirectionType \<Rightarrow> ui_state \<times> bool" where
  "navigate_focus_of s w direction =
     (if w = ListWidget
      then (let s = fst (st_navigate_focus s ListWidget direction);
                s = fst (st_navigate_focus s MainMenuList TAB_FORWARD)
            in (s, False))
      else st_navigate_focus s w direction)"

text \<open>\<open>_grabFocus (actor, direction)\<close>.\<close>

definition grabFocus :: "ui_state \<Rightarrow> widget \<Rightarrow> DirectionType \<Rightarrow> ui_state" where
  "grabFocus s actor direction =
     (let r = navigate_focus_of s actor direction;
          s = fst r;
          focusSet = snd r
      in if \<not> focusSet
         then s\<lparr>laters := snd (later_add (laters s) (GrabFocusRetry actor direction))\<rparr>
         else s)"

text \<open>
  \<open>show ()\<close> of an actor that is hidden emits \<open>show\<close>, and the constructor connected a
  handler to it for each of the three actors; \<open>show ()\<close> of a visible actor does
  nothing. (\<open>_adjustSize\<close> sets positions and sizes, which are not part of the state.)
\<close>

definition actor_show :: "ui_state \<Rightarrow> ui_state" where
  "actor_show s =
     (if actor_visible s then s
      else grabFocus (s\<lparr>actor_visible := True\<rparr>) AppsWidget TAB_FORWARD)"

definition list_show :: "ui_state \<Rightarrow> ui_state" where
  "list_show s =
     (if list_visible s then s
      else grabFocus (s\<lparr>list_visible := True\<rparr>) ListWidget TAB_FORWARD)"

definition apps_show :: "ui_state \<Rightarrow> ui_state" where
  "apps_show s =
     (if apps_visible s then s
      else grabFocus (s\<lparr>apps_visible := True\<rparr>) AppViewWidget TAB_BACKWARD)"

fun view_show :: "view_name \<Rightarrow> ui_state \<Rightarrow> ui_state" where
  "view_show list_view s = list_show s"
| "view_show apps_view s = apps_show s"

fun view_hide :: "view_name \<Rightarrow> ui_state \<Rightarrow> ui_state" where
  "view_hide list_view s = s\<lparr>list_visible := False\<rparr>"
| "view_hide apps_view s = s\<lparr>apps_visible := False\<rparr>"

text \<open>\<open>ViewManager.showView (name)\<close>, for the two names that have a view.\<close>

definition showView :: "ui_state \<Rightarrow> view_name \<Rightarrow> ui_state" where
  "showView s v =
     (let s = (case currentView s of
                 Some c \<Rightarrow> if c \<noteq> v then view_hide c s else s
               | None \<Rightarrow> s);
          s = s\<lparr>currentView := Some v\<rparr>
      in view_show v s)"

definition homeScreen :: "ui_state \<Rightarrow> ui_state" where
  "homeScreen s = showView s apps_view"

definition showSettings :: "ui_state \<Rightarrow> ui_state" where
  "showSettings s = showView s list_view"

definition grabModal :: "ui_state \<Rightarrow> ui_state \<times> bool" where
  "grabModal s =
     (if modalToken s then (s, True)
      else (s\<lparr>modalToken := pushModal_result s\<rparr>, pushModal_result s))"

definition removeModal :: "ui_state \<Rightarrow> ui_state" where
  "removeModal s = (if modalToken s then s\<lparr>modalToken := False\<rparr> else s)"

text \<open>\<open>showModal (skipAnimation)\<close>.\<close>

definition showModal :: "bool \<Rightarrow> ui_state \<Rightarrow> ui_state" where
  "showModal skipAnimation s =
     (let r = grabModal s;
          s = fst r;
          s = (if \<not> snd r then s\<lparr>notifications := Suc (notifications s)\<rparr> else s);
          s = s\<lparr>isShown := True\<rparr>;
          s = s\<lparr>lightbox_visible := True\<rparr>;
          s = s\<lparr>lightbox_handlers := Suc (lightbox_handlers s)\<rparr>;
          s = (if \<not> actor_visible s
               then (let s = actor_show s in
                     if \<not> skipAnimation then s\<lparr>actor_opacity := 0, actor_ease_to := Some 255\<rparr>
                     else s\<lparr>actor_opacity := 255\<rparr>)
               else s)
      in s\<lparr>stage_key_focus := Some ScreenActor\<rparr>)"

text \<open>\<open>hideModal (userHidden)\<close>.\<close>

definition hideModal :: "bool \<Rightarrow> ui_state \<Rightarrow> ui_state" where
  "hideModal userHidden s =
     (let s = s\<lparr>actor_ease_to := None\<rparr>;
          s = s\<lparr>actor_opacity := 0\<rparr>;
          s = (if userHidden then s\<lparr>isShown := False\<rparr> else s);
          s = removeModal s;
          s = s\<lparr>lightbox_visible := False\<rparr>;
          s = s\<lparr>actor_visible := False\<rparr>
      in homeScreen s)"

text \<open>
  \<open>_updateRunningCount (appSys, app)\<close>: \<open>appState\<close> is \<open>app.state\<close>, the state of the
  app that changed (\<open>None\<close> when no app is given), \<open>running\<close> the length of
  \<open>Shell.AppSystem.get_default ().get_running ()\<close>.
\<close>

definition updateRunningCount :: "ui_state \<Rightarrow> app_state option \<Rightarrow> nat \<Rightarrow> ui_state" where
  "updateRunningCount s appState running =
     (if appState = Some STARTING then s
      else
        (let s = s\<lparr>nAppsRunning := running\<rparr> in
         if nAppsRunning s \<noteq> 0 then hideModal False s
         else if isShown s then showModal True s
         else s))"

text \<open>\<open>MenuList._moveFocusToItems\<close>, for the main list.\<close>

definition moveFocusToItems :: "ui_state \<Rightarrow> ui_state" where
  "moveFocusToItems s =
     (let hasItems = length (menu_items s) > 0 in
      if \<not> hasItems then s
      else if stage_key_focus s \<noteq> Some MainMenuList then s
      else
        (let r = navigate_focus_of s MainMenuList TAB_FORWARD;
             s = fst r;
             focusSet = snd r
         in if \<not> focusSet
            then s\<lparr>laters := snd (later_add (laters s) MoveFocusToItems)\<rparr>
            else s))"

text \<open>
  A redraw: the callbacks that wait are run once each, in order; each of them
  returns \<open>false\<close> and so is dropped. What a callback adds waits for the redraw after.
\<close>

fun run_later :: "ui_state \<Rightarrow> later_callback \<Rightarrow> ui_state" where
  "run_later s UpdateIconSizes = s"
| "run_later s (GrabFocusRetry actor direction) = fst (navigate_focus_of s actor direction)"
| "run_later s MoveFocusToItems = moveFocusToItems s"

definition before_redraw :: "ui_state \<Rightarrow> ui_state" where
  "before_redraw s =
     (let callbacks = map snd (pending (laters s));
          s = s\<lparr>laters := (laters s)\<lparr>pending := []\<rparr>\<rparr>
      in foldl run_later s callbacks)"

text \<open>
  \<open>exit ()\<close> of the screen, which the item "Exit Interface" of the main menu calls.
\<close>

definition exit :: "ui_state \<Rightarrow> ui_state" where
  "exit s = homeScreen (hideModal True s)"

text \<open>
  \<open>Mouseless.hide (closeModal = true)\<close> and \<open>Mouseless._exitKeyHandler\<close> of
  \<open>extension.js\<close>, the handler of the exit shortcut. \<open>hide\<close> calls \<open>hideModal ()\<close>
  without an argument, so \<open>userHidden\<close> takes its default \<open>false\<close>.
\<close>

definition hide :: "bool \<Rightarrow> ui_state \<Rightarrow> ui_state" where
  "hide closeModal s =
     (if closeModal then hideModal False s else s\<lparr>actor_visible := False\<rparr>)"

definition exitKeyHandler :: "ui_state \<Rightarrow> ui_state" where
  "exitKeyHandler s = hide True s"

text \<open>
  The interface when its constructor returns: \<open>actor\<close>, \<open>lightbox\<close> and \<open>list\<close> are
  created hidden, \<open>addView\<close> hides both views and \<open>showView ('apps')\<close> shows \<open>apps\<close>
  (the handlers of \<open>show\<close> are connected after that), \<open>_isShown\<close> is \<open>false\<close>, the
  main list has its five items, no actor holds the key focus and nothing is laid out
  yet, so the toolkit finds nothing to focus.
\<close>

definition new_MouselessScreen :: ui_state where
  "new_MouselessScreen =
     \<lparr>isShown = False, modalToken = False, nAppsRunning = 0,
      actor_visible = False, actor_opacity = 255, actor_ease_to = None,
      lightbox_visible = False, lightbox_handlers = 0, notifications = 0,
      list_visible = False, apps_visible = True, currentView = Some apps_view,
      menu_items = [''back'', ''iface-settings'', ''display-settings'', ''audio-settings'', ''exit''],
      stage_key_focus = None, nav_log = [], laters = \<lparr>last_later_id = 0, pending = []\<rparr>,
      pushModal_result = True, can_focus = (\<lambda>w. False)\<rparr>"

text \<open>
  What happens to the interface after its construction, each with the code that it
  runs:
  \<^item> \<open>Show\<close>: \<open>Mouseless.show ()\<close>, which calls \<open>showModal ()\<close>;
  \<^item> \<open>ExitKey\<close>: the exit shortcut;
  \<^item> \<open>Back\<close>: the key Escape, whose signal \<open>back\<close> calls \<open>hideModal (true)\<close>;
  \<^item> \<open>LightboxClick\<close>: a click on the lightbox; every \<open>showModal\<close> connected one more
    handler to it, and each of them calls \<open>hideModal (true)\<close>;
  \<^item> \<open>ExitItem\<close>: the item "Exit Interface", which calls \<open>exit ()\<close>;
  \<^item> \<open>Activate\<close>: \<open>AppIcon.activate\<close> (or an item of its menu that opens the
    application), which ends with \<open>hideModal (true)\<close>;
  \<^item> \<open>AppStateChanged\<close>: the signal \<open>app-state-changed\<close>, with the state of the
    application and the number of running applications;
  \<^item> \<open>ShowSettings\<close> and \<open>HomeScreen\<close>: \<open>showSettings ()\<close> and \<open>homeScreen ()\<close>
    (\<open>MenuList.back\<close> calls the latter);
  \<^item> \<open>AddItem\<close>: \<open>MenuList.addItem\<close> on the main list, which ends with
    \<open>_moveFocusToItems ()\<close>;
  \<^item> \<open>BeforeRedraw\<close>: a redraw;
  \<^item> \<open>Layout\<close> and \<open>ModalGrab\<close>: the shell changes what can be focused, and
    whether it hands out a grab;
  \<^item> \<open>KeyFocus\<close>: a focusable actor inside a container calls \<open>grab_key_focus ()\<close>
    (an icon in \<open>IconGrid.navigate_focus\<close> or under the pointer, an item of a list
    when it is selected).

  Nothing gives the key focus to a \<open>MenuList\<close> itself: it is created without
  \<open>can_focus\<close>, and no code calls \<open>grab_key_focus\<close> or \<open>set_key_focus\<close> on it.
\<close>

datatype ui_event =
    Show
  | ExitKey
  | Back
  | LightboxClick
  | ExitItem
  | Activate
  | AppStateChanged "app_state option" nat
  | ShowSettings
  | HomeScreen
  | AddItem string
  | BeforeRedraw
  | Layout "widget \<Rightarrow> bool"
  | ModalGrab bool
  | KeyFocus widget

fun ui_step :: "ui_state \<Rightarrow> ui_event \<Rightarrow> ui_state" where
  "ui_step s Show = showModal False s"
| "ui_step s ExitKey = exitKeyHandler s"
| "ui_step s Back = hideModal True s"
| "ui_step s LightboxClick = ((hideModal True) ^^ lightbox_handlers s) s"
| "ui_step s ExitItem = exit s"
| "ui_step s Activate = hideModal True s"
| "ui_step s (AppStateChanged appState running) = updateRunningCount s appState running"
| "ui_step s ShowSettings = showSettings s"
| "ui_step s HomeScreen = homeScreen s"
| "ui_step s (AddItem i) =
     moveFocusToItems
       (s\<lparr>menu_items := (if i \<in> set (menu_items s) then menu_items s else menu_items s @ [i])\<rparr>)"
| "ui_step s BeforeRedraw = before_redraw s"
| "ui_step s (Layout f) = s\<lparr>can_focus := f\<rparr>"
| "ui_step s (ModalGrab b) = s\<lparr>pushModal_result := b\<rparr>"
| "ui_step s (KeyFocus w) = s\<lparr>stage_key_focus := Some (FocusInside w)\<rparr>"

text \<open>The state of the interface after a sequence of events.\<close>

definition run_events :: "ui_event list \<Rightarrow> ui_state" where
  "run_events events = foldl ui_step new_MouselessScreen events"

section \<open>Example inputs\<close>

definition ex_app :: "string \<Rightarrow> shell_app" where
  "ex_app n =
     \<lparr>get_id = n @ ''.desktop'', get_name = n,
      get_desktop_file_id = DesktopFileId (n @ ''.desktop'')\<rparr>"

definition ex_item :: "nat \<Rightarrow> item" where
  "ex_item k = AppIcon k (ex_app ''app'')"

definition ex_grid :: "item list \<Rightarrow> icon_grid" where
  "ex_grid cs =
     \<lparr>rowLimit = None, colLimit = Some 5, minRows = 4, minColumns = 3, padWithSpacing = False,
      topPadding = 0, bottomPadding = 0, rightPadding = 0, leftPadding = 0,
      updateIconSizesLaterId = 0, items = cs, spacing = 0, hItemSize = 160, vItemSize = 160,
      fixedSpacing = None, fixedHItemSize = None, fixedVItemSize = None,
      nonIconWidth = 0, nonIconHeight = 0, children = cs, gridWidth = 600, scale_factor = 1\<rparr>"

definition ex_view :: app_view where
  "ex_view =
     \<lparr>grid = ex_grid [ex_item 1, ex_item 2, ex_item 3],
      orderedItems = [ex_item 1, ex_item 2, ex_item 3],
      items_map = Map.empty, lastFocused = Some (ex_item 1), viewIsReady = True\<rparr>"

definition ex_later :: meta_later where
  "ex_later = \<lparr>last_later_id = 0, pending = []\<rparr>"

definition ex_adapted :: "icon_grid \<times> meta_later" where
  "ex_adapted =
     ((ex_grid [])\<lparr>fixedHItemSize := Some 100, fixedVItemSize := Some 100,
                   fixedSpacing := Some 0, updateIconSizesLaterId := 1\<rparr>,
      \<lparr>last_later_id = 1, pending = [(1, UpdateIconSizes)]\<rparr>)"

definition ex_icon :: "nat \<Rightarrow> string \<Rightarrow> item" where
  "ex_icon r n = AppIcon r (ex_app n)"

definition ex_view_of :: "item list \<Rightarrow> app_view" where
  "ex_view_of icons =
     \<lparr>grid = ex_grid icons, orderedItems = icons,
      items_map = map_of (map (\<lambda>ic. (item_id ic, ic)) icons),
      lastFocused = None, viewIsReady = True\<rparr>"

definition ex_localeCompare :: "string \<Rightarrow> string \<Rightarrow> int" where
  "ex_localeCompare a b = (if a < b then -1 else if a = b then 0 else 1)"

definition ex_allApps :: "shell_app list" where
  "ex_allApps = map ex_app [''g'', ''e'', ''c'', ''a'', ''f'', ''d'', ''b'']"

text \<open>
  The interface right after its construction, nothing laid out yet: no actor can take
  the focus.
\<close>

definition ex_screen :: ui_state where
  "ex_screen =
     \<lparr>isShown = False, modalToken = False, nAppsRunning = 0,
      actor_visible = False, actor_opacity = 255, actor_ease_to = None,
      lightbox_visible = False, lightbox_handlers = 0, notifications = 0,
      list_visible = False, apps_visible = True, currentView = Some apps_view,
      menu_items = [''back'', ''iface-settings'', ''display-settings'', ''audio-settings'', ''exit''],
      stage_key_focus = None, nav_log = [], laters = \<lparr>last_later_id = 0, pending = []\<rparr>,
      pushModal_result = True, can_focus = (\<lambda>w. False)\<rparr>"

section \<open>Directional navigation\<close>

lemma js_rem_nonneg: "0 \<le> a \<Longrightarrow> 0 < b \<Longrightarrow> js_rem a b = a mod b"
  by (cases "a = 0") (simp_all add: js_rem_def)

lemma up_wrap_in_range:
  fixes idx n c :: int
  assumes "0 \<le> idx" "idx < n" "0 < c" "idx - c < 0"
  defines "t \<equiv> idx mod c + (n - 1) div c * c"
  shows "0 \<le> (if t \<ge> n then t - c else t) \<and> (if t \<ge> n then t - c else t) < n"
proof -
  define q where "q = (n - 1) div c"
  have t: "t = idx + q * c" using assms by (simp add: q_def t_def)
  have q_nonneg: "0 \<le> q" unfolding q_def using assms by (simp add: pos_imp_zdiv_nonneg_iff)
  have "(n - 1) = q * c + (n - 1) mod c" unfolding q_def by simp
  moreover have "0 \<le> (n - 1) mod c" using assms(3) by simp
  ultimately have q_le: "q * c \<le> n - 1" by linarith
  show ?thesis
  proof (cases "q = 0")
    case True
    then show ?thesis using assms(1,2) t by simp
  next
    case False
    with q_nonneg have "1 \<le> q" by simp
    then have "1 * c \<le> q * c" using assms(3) by (intro mult_right_mono) simp_all
    then have "c \<le> q * c" by simp
    then have a: "0 \<le> t - c" "t - c < n" "0 \<le> t" using assms(1,2,4) t q_le by linarith+
    show ?thesis
    proof (cases "t \<ge> n")
      case True
      then show ?thesis using a by (simp only: if_True simp_thms)
    next
      case False
      then have "t < n" by simp
      then show ?thesis using a False by (simp only: if_False simp_thms)
    qed
  qed
qed

text \<open>
  C1. For a direction among Up, Down, Left and Right, a column count of at least one
  and a current index inside the \<open>count\<close> items, the navigator resolves a target, and
  the target index lies in \<open>[0, count)\<close>; this includes the wrap of Up and Down over
  a ragged last row. (The "no movement" results of \<open>navigate_focus\<close> are the empty
  grid and the two tab directions.)
\<close>

theorem C1_navigate_target_in_range:
  assumes "direction \<in> {UP, DOWN, LEFT, RIGHT}" and "1 \<le> columns"
    and "0 \<le> idx" and "idx < count"
  shows "\<exists>i. navigate_target idx direction wrap count columns = GrabKeyFocus i \<and> int i < count"
proof -
  have c: "js_or columns 1 = columns" "0 < columns"
    using assms(2) by (simp_all add: js_or_def)
  have r: "js_rem idx columns = idx mod columns"
    using assms(3) c(2) by (rule js_rem_nonneg)
  have m: "0 \<le> idx mod columns" "idx mod columns \<le> idx"
    using assms(3) c(2) by (simp_all add: zmod_le_nonneg_dividend)
  consider "direction = UP" | "direction = DOWN" | "direction = LEFT" | "direction = RIGHT"
    using assms(1) by auto
  then show ?thesis
  proof cases
    case 1
    show ?thesis
    proof (cases "idx - columns < 0")
      case True
      from up_wrap_in_range[OF assms(3) assms(4) c(2) True]
      show ?thesis using 1 True by (simp add: navigate_target_def c r Let_def)
    next
      case False
      then show ?thesis using 1 assms c by (simp add: navigate_target_def Let_def)
    qed
  next
    case 2
    show ?thesis
    proof (cases "idx + columns \<ge> count")
      case True
      then have "navigate_target idx direction wrap count columns
                   = GrabKeyFocus (nat (idx mod columns))"
        using 2 assms(4) c m by (simp add: navigate_target_def r Let_def)
      then show ?thesis using m assms(4) by simp
    next
      case False
      have nonneg: "0 \<le> idx + columns" using assms(3) c(2) by linarith
      with False have "navigate_target idx direction wrap count columns
                         = GrabKeyFocus (nat (idx + columns))"
        using 2 c by (simp add: navigate_target_def r Let_def)
      then show ?thesis using False nonneg by simp
    qed
  next
    case 3
    then show ?thesis using assms by (simp add: navigate_target_def Let_def)
  next
    case 4
    then show ?thesis using assms by (simp add: navigate_target_def Let_def)
  qed
qed

text \<open>Five items in three columns, Up from index 2: the column has no cell in the last row.\<close>

theorem C1_navigate_target_in_range_witness:
  "UP \<in> {UP, DOWN, LEFT, RIGHT} \<and> (1::int) \<le> 3 \<and> (0::int) \<le> 2 \<and> (2::int) < 5
   \<and> (\<exists>i. navigate_target 2 UP True 5 3 = GrabKeyFocus i \<and> int i < 5)"
  using C1_navigate_target_in_range [of UP 3 2 5 True] by simp

text \<open>
  The same for \<open>navigate_focus\<close> on a grid: whatever the arguments, a call that
  returns either reports no movement or has focused one of the visible children.
\<close>

lemma navigate_focus_in_range:
  assumes "navigate_focus g current direction wrap = Some r"
  shows "r = NoFocus \<or> (\<exists>i. r = GrabKeyFocus i \<and> i < length (getVisibleChildren g))"
proof (cases "getVisibleChildren g = []")
  case True
  then show ?thesis using assms by (simp add: navigate_focus_def)
next
  case False
  show ?thesis
  proof (cases "(case current of None \<Rightarrow> -1 | Some c \<Rightarrow> indexOf (getVisibleChildren g) c) < 0")
    case True
    then show ?thesis using assms False by (auto simp: navigate_focus_def Let_def)
  next
    case idx: False
    then obtain layout where
      "r = navigate_target (case current of None \<Rightarrow> -1 | Some c \<Rightarrow> indexOf (getVisibleChildren g) c)
             direction wrap (int (length (getVisibleChildren g))) (fst layout)"
      using assms False by (auto simp: navigate_focus_def Let_def split: bind_splits)
    then show ?thesis
      by (auto simp: navigate_target_def Let_def split: option.splits if_splits)
  qed
qed

text \<open>
  C9. With wrap enabled, Right and then Left leads back to the index one started
  from, for every column count and every index inside the \<open>n\<close> items.
\<close>

theorem C9_right_then_left_identity:
  assumes "0 \<le> i" and "i < n"
  shows "\<exists>j. navigate_target i RIGHT True n c = GrabKeyFocus j
            \<and> navigate_target (int j) LEFT True n c = GrabKeyFocus (nat i)"
proof (cases "i + 1 \<ge> n")
  case True
  then have "i = n - 1" using assms by simp
  then show ?thesis using assms by (simp add: navigate_target_def Let_def)
next
  case False
  then show ?thesis using assms by (simp add: navigate_target_def Let_def)
qed

text \<open>At the last of five items Right wraps to the first, and Left wraps back.\<close>

theorem C9_right_then_left_identity_witness:
  "(0::int) \<le> 4 \<and> (4::int) < 5
   \<and> (\<exists>j. navigate_target 4 RIGHT True 5 3 = GrabKeyFocus j
          \<and> navigate_target (int j) LEFT True 5 3 = GrabKeyFocus (nat 4))"
  using C9_right_then_left_identity [of 4 5 3] by simp

section \<open>Adding an item to the grid\<close>

lemma insert_child_at_index_inside:
  assumes "0 \<le> i" and "nat i \<le> length cs"
  shows "insert_child_at_index cs c i ! nat i = c"
    and "take (nat i) (insert_child_at_index cs c i) = take (nat i) cs"
    and "drop (Suc (nat i)) (insert_child_at_index cs c i) = drop (nat i) cs"
  using assms by (simp_all add: insert_child_at_index_def nth_append min_def)

text \<open>
  C10. \<open>addItem\<close> throws and leaves the grid as it was (its \<open>_items\<close> and its
  children) when the item's \<open>icon\<close> is not a \<open>BaseIcon\<close>. For an item whose icon is a
  \<open>BaseIcon\<close> it throws nothing and records the item in \<open>_items\<close>; the item becomes
  the child at the given index when one is supplied (the children before and after
  it keep their order), and the last child otherwise.
\<close>

theorem C10_addItem:
  "(\<not> instanceof_BaseIcon (icon it) \<longrightarrow>
      fst (addItem g it index) = g \<and> snd (addItem g it index) \<noteq> None)
   \<and> (instanceof_BaseIcon (icon it) \<longrightarrow>
        snd (addItem g it index) = None
        \<and> items (fst (addItem g it index)) = items g @ [it]
        \<and> (index = None \<longrightarrow> children (fst (addItem g it index)) = children g @ [it])
        \<and> (\<forall>i. index = Some i \<and> 0 \<le> i \<and> nat i \<le> length (children g) \<longrightarrow>
              children (fst (addItem g it index)) ! nat i = it
              \<and> take (nat i) (children (fst (addItem g it index))) = take (nat i) (children g)
              \<and> drop (Suc (nat i)) (children (fst (addItem g it index)))
                  = drop (nat i) (children g)))"
  by (cases index) (simp_all add: addItem_def Let_def insert_child_at_index_inside)

lemma ex_item_simps:
  "ref (ex_item k) = k" "visible (ex_item k)" "instanceof_BaseIcon (icon (ex_item k))"
  "ex_item j = ex_item k \<longleftrightarrow> j = k"
  by (simp_all add: ex_item_def AppIcon_def Let_def)

text \<open>
  A grid with two children: an item without a \<open>BaseIcon\<close> is refused, an item with
  one goes between the two at index 1 and after them without an index.
\<close>

theorem C10_addItem_witness:
  "instanceof_BaseIcon (icon (ex_item 7))
   \<and> \<not> instanceof_BaseIcon (icon ((ex_item 8)\<lparr>icon := NotBaseIcon\<rparr>))
   \<and> fst (addItem (ex_grid [ex_item 1, ex_item 2]) ((ex_item 8)\<lparr>icon := NotBaseIcon\<rparr>) (Some 1))
       = ex_grid [ex_item 1, ex_item 2]
   \<and> snd (addItem (ex_grid [ex_item 1, ex_item 2]) ((ex_item 8)\<lparr>icon := NotBaseIcon\<rparr>) (Some 1))
       \<noteq> None
   \<and> snd (addItem (ex_grid [ex_item 1, ex_item 2]) (ex_item 7) (Some 1)) = None
   \<and> children (fst (addItem (ex_grid [ex_item 1, ex_item 2]) (ex_item 7) (Some 1)))
       = [ex_item 1, ex_item 7, ex_item 2]
   \<and> children (fst (addItem (ex_grid [ex_item 1, ex_item 2]) (ex_item 7) None))
       = [ex_item 1, ex_item 2, ex_item 7]"
  using C10_addItem [of "ex_item 7" "ex_grid [ex_item 1, ex_item 2]" "Some 1"]
    C10_addItem [of "ex_item 7" "ex_grid [ex_item 1, ex_item 2]" "None"]
    C10_addItem [of "(ex_item 8)\<lparr>icon := NotBaseIcon\<rparr>" "ex_grid [ex_item 1, ex_item 2]" "Some 1"]
  by (simp add: ex_item_simps ex_grid_def addItem_def insert_child_at_index_def)

section \<open>Movement at the ends of the grid\<close>

lemma computeLayout_ex_grid: "computeLayout (ex_grid cs) 600 = Some (3, 480)"
  by (simp add: computeLayout_def ex_grid_def getSpacing_def getHItemSize_def js_truthy_or_def
      computeLayout_loop.simps)

text \<open>
  C4. Three icons, wrap disabled (\<open>movement\<close> always passes \<open>false\<close>). Left with the
  first icon focused: \<open>navigate_focus\<close> clamps the index to 0, focuses the first icon
  again and returns \<open>true\<close>, and \<open>movement\<close> returns \<open>EVENT_STOP\<close>. Right with the last
  icon focused: the same at index 2. Neither is the "no movement" result, and the
  event is stopped, not propagated.
\<close>

theorem C4_edge_without_wrap_code:
  "navigate_target 0 LEFT False 3 3 = GrabKeyFocus 0
   \<and> navigate_target 2 RIGHT False 3 3 = GrabKeyFocus 2
   \<and> movement ex_view (Some LEFT) = Some (EVENT_STOP, Some (GrabKeyFocus 0))
   \<and> movement (ex_view\<lparr>lastFocused := Some (ex_item 3)\<rparr>) (Some RIGHT)
       = Some (EVENT_STOP, Some (GrabKeyFocus 2))"
proof -
  have g: "gridWidth (ex_grid cs) = 600" "getVisibleChildren (ex_grid cs) = filter visible cs"
    for cs by (simp_all add: ex_grid_def getVisibleChildren_def)
  show ?thesis
    by (simp add: movement_def ex_view_def navigate_focus_def g computeLayout_ex_grid
        ex_item_simps navigate_target_def js_or_def Let_def)
qed

section \<open>The layout pass\<close>

lemma computeLayout_loop_returns:
  assumes "0 < hItem + sp"
  shows "\<exists>r. computeLayout_loop lim hItem sp forWidth n u = Some r"
  using assms
proof (induction "nat (forWidth - (u + hItem) + 1)" arbitrary: n u rule: less_induct)
  case less
  show ?case
  proof (cases "(case lim of None \<Rightarrow> True | Some l \<Rightarrow> n < l) \<and> u + hItem \<le> forWidth")
    case True
    then have "nat (forWidth - (u + (hItem + sp) + hItem) + 1) < nat (forWidth - (u + hItem) + 1)"
      using less.prems by auto
    from less.hyps[OF this less.prems] obtain r where
      "computeLayout_loop lim hItem sp forWidth (n + 1) (u + (hItem + sp)) = Some r" by blast
    then show ?thesis using True by (subst computeLayout_loop.simps) auto
  next
    case False
    then show ?thesis by (subst computeLayout_loop.simps) auto
  qed
qed

lemma js_truthy_or_Some_same: "js_truthy_or (Some d) d = d"
  by (simp add: js_truthy_or_def)

lemma js_truthy_or_ge: "0 \<le> d \<Longrightarrow> d \<le> x \<Longrightarrow> 0 \<le> js_truthy_or (Some x) d"
  by (auto simp add: js_truthy_or_def)

lemma spacingForSize_ge: "sp \<le> spacingForSize r c p sp v hh w h"
  unfolding spacingForSize_def Let_def by (rule max.cobounded1)

text \<open>What \<open>_updateSpacingForSize\<close> writes.\<close>

lemma updateSpacingForSize_pad:
  assumes "padWithSpacing g"
  shows "updateSpacingForSize g w h =
    g\<lparr>fixedSpacing := Some (spacingForSize (minRows g) (minColumns g) True (spacing g)
                              (getVItemSize g) (getHItemSize g) w h),
      topPadding := spacingForSize (minRows g) (minColumns g) True (spacing g)
                              (getVItemSize g) (getHItemSize g) w h,
      rightPadding := spacingForSize (minRows g) (minColumns g) True (spacing g)
                              (getVItemSize g) (getHItemSize g) w h,
      bottomPadding := spacingForSize (minRows g) (minColumns g) True (spacing g)
                              (getVItemSize g) (getHItemSize g) w h,
      leftPadding := spacingForSize (minRows g) (minColumns g) True (spacing g)
                              (getVItemSize g) (getHItemSize g) w h\<rparr>"
  using assms by (simp add: updateSpacingForSize_def setSpacing_def Let_def)

lemma updateSpacingForSize_nopad:
  assumes "\<not> padWithSpacing g"
  shows "updateSpacingForSize g w h =
    g\<lparr>fixedSpacing := Some (spacingForSize (minRows g) (minColumns g) False (spacing g)
                              (getVItemSize g) (getHItemSize g) w h)\<rparr>"
  using assms by (simp add: updateSpacingForSize_def setSpacing_def Let_def)

lemma updateSpacingForSize_later:
  "updateSpacingForSize (g\<lparr>updateIconSizesLaterId := i\<rparr>) w h
     = (updateSpacingForSize g w h)\<lparr>updateIconSizesLaterId := i\<rparr>"
  by (simp add: updateSpacingForSize_def setSpacing_def getVItemSize_def getHItemSize_def Let_def)

lemma updateSpacingForSize_keeps:
  "scale_factor (updateSpacingForSize g w h) = scale_factor g"
  "hItemSize (updateSpacingForSize g w h) = hItemSize g"
  "vItemSize (updateSpacingForSize g w h) = vItemSize g"
  "updateIconSizesLaterId (updateSpacingForSize g w h) = updateIconSizesLaterId g"
  by (simp_all add: updateSpacingForSize_def setSpacing_def Let_def)

text \<open>The two parts of \<open>adaptToSize\<close> that compute sizes, with the \<open>let\<close>s resolved.\<close>

lemma adaptToSize_reset_unfold:
  "adaptToSize_reset g w h =
     (updateSpacingForSize
        (g\<lparr>fixedHItemSize := Some (hItemSize g), fixedVItemSize := Some (vItemSize g)\<rparr>) w h)
     \<lparr>nonIconWidth := max 0 (hItemSize g - scale_factor g * ICON_SIZE),
      nonIconHeight := max 0 (vItemSize g - scale_factor g * ICON_SIZE)\<rparr>"
  by (simp add: adaptToSize_reset_def Let_def updateSpacingForSize_keeps)

lemma adaptToSize_shrink_unfold:
  "adaptToSize_shrink g w h =
     updateSpacingForSize
       (g\<lparr>fixedHItemSize :=
            Some (max (hItemSize g - neededSpacePerItem g w h)
                      (nonIconWidth g + scale_factor g * MIN_ICON_SIZE)),
          fixedVItemSize :=
            Some (max (vItemSize g - neededSpacePerItem g w h)
                      (nonIconHeight g + scale_factor g * MIN_ICON_SIZE))\<rparr>) w h"
  by (simp add: adaptToSize_shrink_def Let_def)

text \<open>
  The first part overwrites the item sizes, the spacing and the non-icon sizes, and
  with \<open>_padWithSpacing\<close> the four paddings: what these held before does not matter.
\<close>

lemma adaptToSize_reset_absorb:
  "adaptToSize_reset (g\<lparr>fixedHItemSize := a\<rparr>) w h = adaptToSize_reset g w h"
  "adaptToSize_reset (g\<lparr>fixedVItemSize := b\<rparr>) w h = adaptToSize_reset g w h"
  "adaptToSize_reset (g\<lparr>fixedSpacing := c\<rparr>) w h = adaptToSize_reset g w h"
  "adaptToSize_reset (g\<lparr>nonIconWidth := d\<rparr>) w h = adaptToSize_reset g w h"
  "adaptToSize_reset (g\<lparr>nonIconHeight := e\<rparr>) w h = adaptToSize_reset g w h"
  by (cases "padWithSpacing g";
      simp add: adaptToSize_reset_unfold updateSpacingForSize_pad updateSpacingForSize_nopad
        getVItemSize_def getHItemSize_def)+

lemma adaptToSize_reset_absorb_padding:
  assumes "padWithSpacing g"
  shows "adaptToSize_reset (g\<lparr>topPadding := p\<rparr>) w h = adaptToSize_reset g w h"
    and "adaptToSize_reset (g\<lparr>rightPadding := p\<rparr>) w h = adaptToSize_reset g w h"
    and "adaptToSize_reset (g\<lparr>bottomPadding := p\<rparr>) w h = adaptToSize_reset g w h"
    and "adaptToSize_reset (g\<lparr>leftPadding := p\<rparr>) w h = adaptToSize_reset g w h"
  using assms
  by (simp_all add: adaptToSize_reset_unfold updateSpacingForSize_pad
        getVItemSize_def getHItemSize_def)

lemma adaptToSize_reset_keeps:
  "padWithSpacing (adaptToSize_reset g w h) = padWithSpacing g"
  "updateIconSizesLaterId (adaptToSize_reset g w h) = updateIconSizesLaterId g"
  by (cases "padWithSpacing g";
      simp add: adaptToSize_reset_unfold updateSpacingForSize_pad updateSpacingForSize_nopad)+

lemma reset_reset:
  "adaptToSize_reset (adaptToSize_reset g w h) w h = adaptToSize_reset g w h"
proof -
  have "adaptToSize_reset (adaptToSize_reset g w h) w h
      = adaptToSize_reset
          ((updateSpacingForSize
             (g\<lparr>fixedHItemSize := Some (hItemSize g), fixedVItemSize := Some (vItemSize g)\<rparr>) w h)
           \<lparr>nonIconWidth := max 0 (hItemSize g - scale_factor g * ICON_SIZE),
            nonIconHeight := max 0 (vItemSize g - scale_factor g * ICON_SIZE)\<rparr>) w h"
    by (rule arg_cong[where f = "\<lambda>x. adaptToSize_reset x w h"]) (rule adaptToSize_reset_unfold)
  also have "\<dots> = adaptToSize_reset g w h"
    by (cases "padWithSpacing g")
      (simp_all add: updateSpacingForSize_pad updateSpacingForSize_nopad
        adaptToSize_reset_absorb adaptToSize_reset_absorb_padding)
  finally show ?thesis .
qed

lemma reset_shrink:
  "adaptToSize_reset (adaptToSize_shrink g w h) w h = adaptToSize_reset g w h"
  by (cases "padWithSpacing g")
    (simp_all add: adaptToSize_shrink_unfold updateSpacingForSize_pad updateSpacingForSize_nopad
      adaptToSize_reset_absorb adaptToSize_reset_absorb_padding)

lemma reset_later:
  "adaptToSize_reset (g\<lparr>updateIconSizesLaterId := i\<rparr>) w h
     = (adaptToSize_reset g w h)\<lparr>updateIconSizesLaterId := i\<rparr>"
  by (cases "padWithSpacing g")
    (simp_all add: adaptToSize_reset_unfold updateSpacingForSize_pad updateSpacingForSize_nopad
      getVItemSize_def getHItemSize_def)

lemma layout_later:
  "columnsForWidth (g\<lparr>updateIconSizesLaterId := i\<rparr>) w = columnsForWidth g w"
  "rowsForHeight (g\<lparr>updateIconSizesLaterId := i\<rparr>) h = rowsForHeight g h"
  "neededSpacePerItem (g\<lparr>updateIconSizesLaterId := i\<rparr>) w h = neededSpacePerItem g w h"
  by (simp_all add: columnsForWidth_def computeLayout_def rowsForHeight_def
      neededSpacePerItem_def usedWidthForNColumns_def usedHeightForNRows_def
      getSpacing_def getHItemSize_def getVItemSize_def)

lemma shrink_later:
  "adaptToSize_shrink (g\<lparr>updateIconSizesLaterId := i\<rparr>) w h
     = (adaptToSize_shrink g w h)\<lparr>updateIconSizesLaterId := i\<rparr>"
  by (cases "padWithSpacing g")
    (simp_all add: adaptToSize_shrink_unfold updateSpacingForSize_pad updateSpacingForSize_nopad
      layout_later getVItemSize_def getHItemSize_def)

text \<open>What \<open>adaptToSize\<close> returns, when it returns.\<close>

lemma adaptToSize_SomeE:
  assumes "adaptToSize (g, m) w h = Some gm'"
  obtains cols where "columnsForWidth (adaptToSize_reset g w h) w = Some cols"
    and "gm' = adaptToSize_later
           (if cols < minColumns (adaptToSize_reset g w h)
               \<or> rowsForHeight (adaptToSize_reset g w h) h < minRows (adaptToSize_reset g w h)
            then adaptToSize_shrink (adaptToSize_reset g w h) w h
            else adaptToSize_reset g w h, m)"
  using assms by (auto simp: adaptToSize_def Let_def split: bind_splits)

lemma adaptToSize_later_fixed:
  "updateIconSizesLaterId g \<noteq> 0 \<Longrightarrow> adaptToSize_later (g, m) = (g, m)"
  by (simp add: adaptToSize_later_def)

lemma adaptToSize_later_form:
  "\<exists>i. i \<noteq> 0 \<and> fst (adaptToSize_later (g, m)) = g\<lparr>updateIconSizesLaterId := i\<rparr>
       \<and> updateIconSizesLaterId (fst (adaptToSize_later (g, m))) = i"
proof (cases "updateIconSizesLaterId g = 0")
  case True
  then show ?thesis by (simp add: adaptToSize_later_def later_add_def Let_def)
next
  case False
  then have "fst (adaptToSize_later (g, m)) = g\<lparr>updateIconSizesLaterId := updateIconSizesLaterId g\<rparr>"
    by (simp add: adaptToSize_later_def)
  then show ?thesis using False by (intro exI[of _ "updateIconSizesLaterId g"]) simp
qed

lemma adaptToSize_idem:
  assumes "adaptToSize gm w h = Some gm'"
  shows "adaptToSize gm' w h = Some gm'"
proof -
  obtain g m where gm: "gm = (g, m)" by (cases gm)
  define R where "R = adaptToSize_reset g w h"
  define G where "G = (\<lambda>cols. if cols < minColumns R \<or> rowsForHeight R h < minRows R
            then adaptToSize_shrink R w h else R)"
  from assms obtain cols where cols: "columnsForWidth R w = Some cols"
    and gm': "gm' = adaptToSize_later (G cols, m)"
    unfolding gm R_def G_def by (rule adaptToSize_SomeE)
  obtain g' m' where pair: "gm' = (g', m')" by (cases gm')
  from adaptToSize_later_form[of "G cols" m] obtain i where
    i: "i \<noteq> 0" "fst (adaptToSize_later (G cols, m)) = (G cols)\<lparr>updateIconSizesLaterId := i\<rparr>"
      "updateIconSizesLaterId (fst (adaptToSize_later (G cols, m))) = i"
    by blast
  have g': "g' = (G cols)\<lparr>updateIconSizesLaterId := i\<rparr>" "updateIconSizesLaterId g' = i"
    using i gm' pair by (metis fst_conv)+
  have resetG: "adaptToSize_reset (G cols) w h = R"
  proof (cases "cols < minColumns R \<or> rowsForHeight R h < minRows R")
    case True
    then have "G cols = adaptToSize_shrink R w h" by (simp add: G_def)
    then show ?thesis by (simp add: reset_shrink R_def reset_reset)
  next
    case False
    then have "G cols = R" by (simp add: G_def)
    then show ?thesis by (simp add: R_def reset_reset)
  qed
  define R' where "R' = R\<lparr>updateIconSizesLaterId := i\<rparr>"
  have reset': "adaptToSize_reset g' w h = R'"
    unfolding g'(1) reset_later resetG R'_def ..
  have c': "columnsForWidth R' w = Some cols" "rowsForHeight R' h = rowsForHeight R h"
    "minColumns R' = minColumns R" "minRows R' = minRows R"
    unfolding R'_def by (simp_all add: layout_later cols)
  have G': "(if cols < minColumns R' \<or> rowsForHeight R' h < minRows R'
             then adaptToSize_shrink R' w h else R') = g'"
  proof (cases "cols < minColumns R \<or> rowsForHeight R h < minRows R")
    case True
    then have "G cols = adaptToSize_shrink R w h" by (simp add: G_def)
    then show ?thesis using True unfolding c' g'(1) by (simp add: R'_def shrink_later)
  next
    case False
    then have "G cols = R" by (simp add: G_def)
    then show ?thesis using False unfolding c' g'(1) by (simp add: R'_def)
  qed
  have "adaptToSize (g', m') w h = Some (adaptToSize_later (g', m'))"
    unfolding adaptToSize_def Let_def fst_conv snd_conv reset'
    by (simp only: c'(1) G' bind.bind_lunit)
  also have "adaptToSize_later (g', m') = (g', m')"
    using i(1) g'(2) by (intro adaptToSize_later_fixed) simp
  finally show ?thesis by (simp add: pair)
qed

lemma getSpacing_reset:
  "getSpacing (adaptToSize_reset g w h)
     = js_truthy_or (Some (spacingForSize (minRows g) (minColumns g) (padWithSpacing g)
          (spacing g) (vItemSize g) (hItemSize g) w h)) (spacing g)"
  by (cases "padWithSpacing g")
    (simp_all add: adaptToSize_reset_unfold updateSpacingForSize_pad updateSpacingForSize_nopad
      getSpacing_def getVItemSize_def getHItemSize_def js_truthy_or_Some_same)

lemma getHItemSize_reset: "getHItemSize (adaptToSize_reset g w h) = hItemSize g"
  by (cases "padWithSpacing g")
    (simp_all add: adaptToSize_reset_unfold updateSpacingForSize_pad updateSpacingForSize_nopad
      getHItemSize_def js_truthy_or_Some_same)

lemma adaptToSize_returns:
  assumes "0 < hItemSize (fst gm)" and "0 \<le> spacing (fst gm)"
  shows "adaptToSize gm w h \<noteq> None"
proof -
  define R where "R = adaptToSize_reset (fst gm) w h"
  have s: "0 \<le> getSpacing R"
    unfolding R_def getSpacing_reset using assms(2) spacingForSize_ge by (rule js_truthy_or_ge)
  have "0 < getHItemSize R + getSpacing R"
    using s assms(1) by (simp add: R_def getHItemSize_reset)
  from computeLayout_loop_returns[OF this]
  obtain r where "computeLayout_loop (colLimit R) (getHItemSize R) (getSpacing R) w 0
      (leftPadding R + rightPadding R) = Some r" by blast
  then obtain c where "columnsForWidth R w = Some c"
    by (simp add: columnsForWidth_def computeLayout_def Let_def split_beta)
  then show ?thesis
    unfolding adaptToSize_def Let_def R_def[symmetric] by simp
qed

text \<open>
  C8. The layout pass is idempotent: when \<open>adaptToSize\<close> returns for a width and a
  height, calling it again with the same width and height returns the state it
  already produced (the same item sizes, spacing, paddings, and with them the same
  column count; no second redraw callback is queued either). It does return for
  every width and height when the theme's item width is positive and the theme's
  spacing is not negative.
\<close>

theorem C8_adaptToSize_idempotent:
  "(\<forall>gm'. adaptToSize gm w h = Some gm' \<longrightarrow> adaptToSize gm' w h = Some gm')
   \<and> (0 < hItemSize (fst gm) \<and> 0 \<le> spacing (fst gm) \<longrightarrow> adaptToSize gm w h \<noteq> None)"
  using adaptToSize_idem adaptToSize_returns by blast

lemma adaptToSize_ex: "adaptToSize (ex_grid [], ex_later) 600 400 = Some ex_adapted"
proof -
  have R: "adaptToSize_reset (ex_grid []) 600 400 =
      (ex_grid [])\<lparr>fixedHItemSize := Some 160, fixedVItemSize := Some 160, fixedSpacing := Some 0\<rparr>"
    by (simp add: adaptToSize_reset_unfold updateSpacingForSize_nopad ex_grid_def
        getVItemSize_def getHItemSize_def js_truthy_or_def spacingForSize_def ICON_SIZE_def)
  have c: "columnsForWidth (adaptToSize_reset (ex_grid []) 600 400) 600 = Some 3"
    unfolding R
    by (simp add: columnsForWidth_def computeLayout_def ex_grid_def getSpacing_def
        getHItemSize_def js_truthy_or_def computeLayout_loop.simps)
  have r: "rowsForHeight (adaptToSize_reset (ex_grid []) 600 400) 400 = 2"
    unfolding R
    by (simp add: rowsForHeight_def ex_grid_def getSpacing_def getVItemSize_def js_truthy_or_def)
  have n: "neededSpacePerItem (adaptToSize_reset (ex_grid []) 600 400) 600 400 = 60"
    unfolding R
    by (simp add: neededSpacePerItem_def usedWidthForNColumns_def usedHeightForNRows_def
        ex_grid_def getSpacing_def getVItemSize_def getHItemSize_def js_truthy_or_def
        js_ceil_div_def)
  have S: "adaptToSize_shrink (adaptToSize_reset (ex_grid []) 600 400) 600 400 =
      (ex_grid [])\<lparr>fixedHItemSize := Some 100, fixedVItemSize := Some 100, fixedSpacing := Some 0\<rparr>"
    unfolding adaptToSize_shrink_unfold n unfolding R
    by (simp add: updateSpacingForSize_nopad ex_grid_def getVItemSize_def getHItemSize_def
        js_truthy_or_def spacingForSize_def MIN_ICON_SIZE_def)
  have m: "minColumns (adaptToSize_reset (ex_grid []) 600 400) = 3"
    "minRows (adaptToSize_reset (ex_grid []) 600 400) = 4"
    unfolding R by (simp_all add: ex_grid_def)
  show ?thesis
    unfolding adaptToSize_def Let_def fst_conv snd_conv c r m
    by (simp add: S adaptToSize_later_def later_add_def ex_later_def ex_adapted_def)
      (simp add: ex_grid_def later_add_def Let_def)?
qed

text \<open>
  A grid for three columns and four rows of items of 160, given 600 by 400: the
  items shrink to 100, and a second pass changes nothing.
\<close>

theorem C8_adaptToSize_idempotent_witness:
  "0 < hItemSize (fst (ex_grid [], ex_later)) \<and> 0 \<le> spacing (fst (ex_grid [], ex_later))
   \<and> adaptToSize (ex_grid [], ex_later) 600 400 = Some ex_adapted
   \<and> adaptToSize ex_adapted 600 400 = Some ex_adapted
   \<and> fixedHItemSize (fst ex_adapted) = Some 100"
proof -
  have "adaptToSize ex_adapted 600 400 = Some ex_adapted"
    using C8_adaptToSize_idempotent [of "(ex_grid [], ex_later)" 600 400] adaptToSize_ex
    by blast
  then show ?thesis
    by (simp add: adaptToSize_ex) (simp add: ex_grid_def ex_adapted_def)
qed

section \<open>Redisplay of the application grid\<close>

lemma indexOf_append_notin:
  "y \<notin> set pre \<Longrightarrow> indexOf (pre @ y # ys) y = int (length pre)"
  by (induction pre) (auto simp: Let_def)

lemma splice_delete1_at: "splice_delete1 (pre @ y # ys) (int (length pre)) = pre @ ys"
  by (simp add: splice_delete1_def splice_start_def)

lemma splice_insert_at:
  "k \<le> length L \<Longrightarrow> splice_insert L (int k) x = take k L @ x # drop k L"
  by (simp add: splice_insert_def splice_start_def)

text \<open>The first \<open>forEach\<close> of \<open>_redisplay\<close> leaves the icons that are not removed, in their order.\<close>

lemma remove_loop:
  assumes "\<forall>x\<in>set pre. \<not> Q x"
  shows "foldl (\<lambda>l ic. splice_delete1 l (indexOf l ic)) (pre @ xs) (filter Q xs)
           = pre @ filter (\<lambda>x. \<not> Q x) xs"
  using assms
proof (induction xs arbitrary: pre)
  case Nil
  then show ?case by simp
next
  case (Cons y ys)
  show ?case
  proof (cases "Q y")
    case True
    then have "y \<notin> set pre" using Cons.prems by auto
    then have "splice_delete1 (pre @ y # ys) (indexOf (pre @ y # ys) y) = pre @ ys"
      by (simp add: indexOf_append_notin splice_delete1_at)
    then show ?thesis using True Cons.IH[OF Cons.prems] by simp
  next
    case False
    then have "\<forall>x\<in>set (pre @ [y]). \<not> Q x" using Cons.prems by simp
    from Cons.IH[OF this] show ?thesis using False by simp
  qed
qed

lemma orderedItems_remove_loop:
  "orderedItems (foldl redisplay_remove av removed)
     = foldl (\<lambda>l ic. splice_delete1 l (indexOf l ic)) (orderedItems av) removed"
  by (induction removed arbitrary: av) (simp_all add: redisplay_remove_def Let_def)

text \<open>
  The second \<open>forEach\<close>: when the list holds the icons before position \<open>length pre\<close>
  of the new order and, after them, the icons that stay, inserting each new icon at
  its index in the new order gives the new order.
\<close>

lemma add_loop:
  assumes "distinct (pre @ suf)"
    and "map item_id L = map item_id pre @ map item_id (filter (\<lambda>x. \<not> A x) suf)"
  shows "map item_id (foldl (\<lambda>l ic. splice_insert l (indexOf (pre @ suf) ic) ic) L (filter A suf))
           = map item_id (pre @ suf)"
  using assms
proof (induction suf arbitrary: pre L)
  case Nil
  then show ?case by simp
next
  case (Cons y ys)
  have d: "distinct ((pre @ [y]) @ ys)" using Cons.prems(1) by simp
  show ?case
  proof (cases "A y")
    case True
    have "y \<notin> set pre" using Cons.prems(1) by auto
    then have idx: "indexOf (pre @ y # ys) y = int (length pre)"
      by (rule indexOf_append_notin)
    have len: "length pre \<le> length L"
      using arg_cong[OF Cons.prems(2), of length] by simp
    have mapL: "map item_id L = map item_id pre @ map item_id (filter (\<lambda>x. \<not> A x) ys)"
      using Cons.prems(2) True by simp
    have tk: "take (length pre) (map item_id L) = map item_id pre"
      "drop (length pre) (map item_id L) = map item_id (filter (\<lambda>x. \<not> A x) ys)"
      unfolding mapL by simp_all
    have "map item_id (splice_insert L (indexOf (pre @ y # ys) y) y)
            = map item_id (pre @ [y]) @ map item_id (filter (\<lambda>x. \<not> A x) ys)"
      unfolding idx splice_insert_at[OF len]
      by (simp add: tk take_map[symmetric] drop_map[symmetric])
    from Cons.IH[OF d this] show ?thesis using True by simp
  next
    case False
    then have "map item_id L = map item_id (pre @ [y]) @ map item_id (filter (\<lambda>x. \<not> A x) ys)"
      using Cons.prems(2) by simp
    from Cons.IH[OF d this] show ?thesis using False by simp
  qed
qed

lemma redisplay_add_ok:
  assumes "instanceof_BaseIcon (icon ic)"
  shows "snd (redisplay_add newApps (av, None) ic) = None"
    and "orderedItems (fst (redisplay_add newApps (av, None) ic))
           = splice_insert (orderedItems av) (indexOf newApps ic) ic"
  using assms by (simp_all add: redisplay_add_def addItem_def Let_def)

lemma add_loop_view:
  assumes "\<forall>ic\<in>set added. instanceof_BaseIcon (icon ic)"
  shows "snd (foldl (redisplay_add newApps) (av, None) added) = None
       \<and> orderedItems (fst (foldl (redisplay_add newApps) (av, None) added))
           = foldl (\<lambda>l ic. splice_insert l (indexOf newApps ic) ic) (orderedItems av) added"
  using assms
proof (induction added arbitrary: av)
  case Nil
  then show ?case by simp
next
  case (Cons ic ics)
  obtain av' where step: "redisplay_add newApps (av, None) ic = (av', None)"
    using redisplay_add_ok(1)[of ic newApps av] Cons.prems by (cases "redisplay_add newApps (av, None) ic") auto
  have "orderedItems av' = splice_insert (orderedItems av) (indexOf newApps ic) ic"
    using redisplay_add_ok(2)[of ic newApps av] Cons.prems step by simp
  then show ?case using Cons.IH[of av'] Cons.prems step by simp
qed

lemma redisplay_orderedItems:
  assumes "distinct newApps" and "\<forall>ic\<in>set newApps. instanceof_BaseIcon (icon ic)"
    and "map item_id (filter (\<lambda>ic. item_id ic \<in> item_id ` set newApps) (orderedItems av))
          = map item_id (filter (\<lambda>ic. item_id ic \<in> item_id ` set (orderedItems av)) newApps)"
  shows "snd (redisplay av newApps) = None"
    and "map item_id (orderedItems (fst (redisplay av newApps))) = map item_id newApps"
proof -
  define old where "old = orderedItems av"
  define av1 where "av1 = foldl redisplay_remove av (removedApps old newApps)"
  have kept: "orderedItems av1 = filter (\<lambda>ic. item_id ic \<in> item_id ` set newApps) old"
    unfolding av1_def orderedItems_remove_loop removedApps_def Let_def old_def[symmetric]
    using remove_loop[of "[]" "\<lambda>ic. item_id ic \<notin> set (map item_id newApps)" old] by simp
  have base: "\<forall>ic\<in>set (addedApps old newApps). instanceof_BaseIcon (icon ic)"
    using assms(2) by (simp add: addedApps_def)
  note loop = add_loop_view[OF base, of newApps av1]
  have "map item_id (foldl (\<lambda>l ic. splice_insert l (indexOf ([] @ newApps) ic) ic) (orderedItems av1)
          (filter (\<lambda>ic. item_id ic \<notin> item_id ` set old) newApps)) = map item_id ([] @ newApps)"
    by (rule add_loop) (use assms(1,3) in \<open>simp_all add: kept old_def\<close>)
  then have final: "map item_id (orderedItems (fst (foldl (redisplay_add newApps) (av1, None)
      (addedApps old newApps)))) = map item_id newApps"
    using loop by (simp add: addedApps_def)
  show "snd (redisplay av newApps) = None"
    using loop by (simp add: redisplay_def Let_def old_def av1_def)
  show "map item_id (orderedItems (fst (redisplay av newApps))) = map item_id newApps"
    using loop final by (simp add: redisplay_def Let_def old_def av1_def)
qed

lemma redisplay_same_ids:
  assumes "map item_id oldApps = map item_id newApps"
  shows "addedApps oldApps newApps = []" and "removedApps oldApps newApps = []"
proof -
  have "item_id ` set oldApps = item_id ` set newApps"
    using arg_cong[OF assms, of set] by simp
  then show "addedApps oldApps newApps = []" and "removedApps oldApps newApps = []"
    by (auto simp: addedApps_def removedApps_def filter_empty_conv)
qed

lemma ex_icon_simps:
  "item_id (ex_icon r ''a'') = ''a.desktop''" "item_id (ex_icon r ''b'') = ''b.desktop''"
  "item_id (ex_icon r ''c'') = ''c.desktop''" "item_id (ex_icon r ''d'') = ''d.desktop''"
  "instanceof_BaseIcon (icon (ex_icon r n))" "ref (ex_icon r n) = r"
  by (simp_all add: ex_icon_def AppIcon_def ex_app_def startsWith_def Let_def)

lemma ex_icon_eq: "ex_icon r n = ex_icon r' n' \<longleftrightarrow> r = r' \<and> n = n'"
  by (auto simp: ex_icon_def AppIcon_def ex_app_def Let_def)

text \<open>
  An icon that stays is never moved: the first \<open>forEach\<close> takes out only icons whose
  id is not among the new ones, and the second puts in only icons whose id was not
  among the old ones, which are therefore no icons of the old list. This holds also
  when \<open>addItem\<close> throws on the way.
\<close>

lemma filter_splice_insert:
  assumes "\<not> P x"
  shows "filter P (splice_insert l i x) = filter P l"
proof -
  have "filter P (splice_insert l i x)
          = filter P (take (splice_start l i) l) @ filter P (drop (splice_start l i) l)"
    using assms by (simp add: splice_insert_def Let_def)
  also have "\<dots> = filter P (take (splice_start l i) l @ drop (splice_start l i) l)"
    by (simp only: filter_append)
  also have "\<dots> = filter P l" by (simp only: append_take_drop_id)
  finally show ?thesis .
qed

lemma redisplay_add_keeps:
  assumes "\<not> P ic"
  shows "filter P (orderedItems (fst (redisplay_add newApps st ic)))
           = filter P (orderedItems (fst st))"
proof (cases "snd st")
  case (Some e)
  then show ?thesis by (simp add: redisplay_add_def)
next
  case None
  then show ?thesis
    using assms
    by (cases "snd (addItem (grid (fst st)) ic (Some (indexOf newApps ic)))")
      (simp_all add: redisplay_add_def Let_def filter_splice_insert)
qed

lemma add_loop_keeps:
  assumes "\<forall>ic\<in>set added. \<not> P ic"
  shows "filter P (orderedItems (fst (foldl (redisplay_add newApps) st added)))
           = filter P (orderedItems (fst st))"
  using assms
proof (induction added arbitrary: st)
  case Nil
  then show ?case by simp
next
  case (Cons ic ics)
  have "filter P (orderedItems (fst (foldl (redisplay_add newApps) (redisplay_add newApps st ic) ics)))
          = filter P (orderedItems (fst (redisplay_add newApps st ic)))"
    using Cons.IH[of "redisplay_add newApps st ic"] Cons.prems by simp
  then show ?case using Cons.prems by (simp add: redisplay_add_keeps)
qed

lemma remove_loop_view:
  "orderedItems (foldl redisplay_remove av (removedApps (orderedItems av) newApps))
     = filter (\<lambda>ic. item_id ic \<in> item_id ` set newApps) (orderedItems av)"
  unfolding orderedItems_remove_loop removedApps_def Let_def
  using remove_loop[of "[]" "\<lambda>ic. item_id ic \<notin> set (map item_id newApps)" "orderedItems av"]
  by simp

lemma orderedItems_redisplay:
  "orderedItems (fst (redisplay av newApps))
     = orderedItems (fst (foldl (redisplay_add newApps)
         (foldl redisplay_remove av (removedApps (orderedItems av) newApps), None)
         (addedApps (orderedItems av) newApps)))"
  by (simp add: redisplay_def Let_def split: option.split)

lemma redisplay_keeps:
  "filter (\<lambda>ic. ic \<in> set (orderedItems av)) (orderedItems (fst (redisplay av newApps)))
     = filter (\<lambda>ic. item_id ic \<in> item_id ` set newApps) (orderedItems av)"
proof -
  have fresh: "\<forall>ic\<in>set (addedApps (orderedItems av) newApps). \<not> ic \<in> set (orderedItems av)"
    by (auto simp: addedApps_def)
  have "filter (\<lambda>ic. ic \<in> set (orderedItems av)) (orderedItems (fst (redisplay av newApps)))
          = filter (\<lambda>ic. ic \<in> set (orderedItems av))
              (filter (\<lambda>ic. item_id ic \<in> item_id ` set newApps) (orderedItems av))"
    unfolding orderedItems_redisplay
    using add_loop_keeps[OF fresh, of newApps
        "(foldl redisplay_remove av (removedApps (orderedItems av) newApps), None)"]
    by (simp add: remove_loop_view)
  also have "\<dots> = filter (\<lambda>ic. item_id ic \<in> item_id ` set newApps) (orderedItems av)"
    by (simp only: filter_filter) (rule filter_cong, auto)
  finally show ?thesis .
qed

text \<open>
  C2, as the code has it. \<open>_redisplay\<close> removes the icons whose id is not among the
  new ones and inserts the new icons whose id was not there, each at its index in the
  new order; an icon that stays is never moved. So the ids of \<open>_orderedItems\<close> come
  out in the new order when the icons that stay already are in the order that the new
  list gives to their ids (and no icon occurs twice in the new list, and every new
  icon has a \<open>BaseIcon\<close>, as every \<open>AppIcon\<close> has; \<open>addItem\<close> throws otherwise). In
  every case the icons of the old list that are in \<open>_orderedItems\<close> afterwards are
  the old icons whose id is among the new ones, the same objects in their old order.
  When the old and the new list have the same ids in the same order, nothing is added
  and nothing is removed.
\<close>

theorem C2_redisplay_order:
  "(distinct newApps \<and> list_all (\<lambda>ic. instanceof_BaseIcon (icon ic)) newApps
      \<and> map item_id (filter (\<lambda>ic. item_id ic \<in> item_id ` set newApps) (orderedItems av))
          = map item_id (filter (\<lambda>ic. item_id ic \<in> item_id ` set (orderedItems av)) newApps)
      \<longrightarrow> snd (redisplay av newApps) = None
          \<and> map item_id (orderedItems (fst (redisplay av newApps))) = map item_id newApps)
   \<and> filter (\<lambda>ic. ic \<in> set (orderedItems av)) (orderedItems (fst (redisplay av newApps)))
       = filter (\<lambda>ic. item_id ic \<in> item_id ` set newApps) (orderedItems av)
   \<and> (map item_id (orderedItems av) = map item_id newApps
      \<longrightarrow> addedApps (orderedItems av) newApps = [] \<and> removedApps (orderedItems av) newApps = [])"
  using redisplay_orderedItems [of newApps av] redisplay_same_ids [of "orderedItems av" newApps]
    redisplay_keeps [of av newApps]
  by (simp add: list_all_iff)

text \<open>
  Old icons a, b, c (the objects 1, 2, 3) and new icons b, c, d (the objects 4, 5, 6):
  a is removed, d is inserted at index 2, the ids come out as b, c, d, and the list
  holds the old objects 2 and 3 and the new object 6. Old icons a, b and new icons
  a, b: nothing to do.
\<close>

theorem C2_redisplay_order_witness:
  "distinct [ex_icon 4 ''b'', ex_icon 5 ''c'', ex_icon 6 ''d'']
   \<and> list_all (\<lambda>ic. instanceof_BaseIcon (icon ic)) [ex_icon 4 ''b'', ex_icon 5 ''c'', ex_icon 6 ''d'']
   \<and> removedApps [ex_icon 1 ''a'', ex_icon 2 ''b'', ex_icon 3 ''c'']
        [ex_icon 4 ''b'', ex_icon 5 ''c'', ex_icon 6 ''d''] = [ex_icon 1 ''a'']
   \<and> addedApps [ex_icon 1 ''a'', ex_icon 2 ''b'', ex_icon 3 ''c'']
        [ex_icon 4 ''b'', ex_icon 5 ''c'', ex_icon 6 ''d''] = [ex_icon 6 ''d'']
   \<and> indexOf [ex_icon 4 ''b'', ex_icon 5 ''c'', ex_icon 6 ''d''] (ex_icon 6 ''d'') = 2
   \<and> map item_id (orderedItems (fst (redisplay
          (ex_view_of [ex_icon 1 ''a'', ex_icon 2 ''b'', ex_icon 3 ''c''])
          [ex_icon 4 ''b'', ex_icon 5 ''c'', ex_icon 6 ''d''])))
       = [''b.desktop'', ''c.desktop'', ''d.desktop'']
   \<and> map ref (orderedItems (fst (redisplay
          (ex_view_of [ex_icon 1 ''a'', ex_icon 2 ''b'', ex_icon 3 ''c''])
          [ex_icon 4 ''b'', ex_icon 5 ''c'', ex_icon 6 ''d''])))
       = [2, 3, 6]
   \<and> filter (\<lambda>ic. ic \<in> set [ex_icon 1 ''a'', ex_icon 2 ''b'', ex_icon 3 ''c''])
        (orderedItems (fst (redisplay
          (ex_view_of [ex_icon 1 ''a'', ex_icon 2 ''b'', ex_icon 3 ''c''])
          [ex_icon 4 ''b'', ex_icon 5 ''c'', ex_icon 6 ''d''])))
       = [ex_icon 2 ''b'', ex_icon 3 ''c'']
   \<and> map item_id [ex_icon 1 ''a'', ex_icon 2 ''b''] = map item_id [ex_icon 7 ''a'', ex_icon 8 ''b'']
   \<and> addedApps [ex_icon 1 ''a'', ex_icon 2 ''b''] [ex_icon 7 ''a'', ex_icon 8 ''b''] = []
   \<and> removedApps [ex_icon 1 ''a'', ex_icon 2 ''b''] [ex_icon 7 ''a'', ex_icon 8 ''b''] = []"
proof -
  have result: "orderedItems (fst (redisplay
          (ex_view_of [ex_icon 1 ''a'', ex_icon 2 ''b'', ex_icon 3 ''c''])
          [ex_icon 4 ''b'', ex_icon 5 ''c'', ex_icon 6 ''d'']))
       = [ex_icon 2 ''b'', ex_icon 3 ''c'', ex_icon 6 ''d'']"
    by (simp add: ex_icon_simps ex_icon_eq ex_view_of_def addedApps_def removedApps_def
      redisplay_def redisplay_remove_def redisplay_add_def addItem_def Let_def
      splice_delete1_def splice_insert_def splice_start_def)
  show ?thesis
    using result
      C2_redisplay_order [of "[ex_icon 4 ''b'', ex_icon 5 ''c'', ex_icon 6 ''d'']"
        "ex_view_of [ex_icon 1 ''a'', ex_icon 2 ''b'', ex_icon 3 ''c'']"]
      C2_redisplay_order [of "[ex_icon 7 ''a'', ex_icon 8 ''b'']"
        "ex_view_of [ex_icon 1 ''a'', ex_icon 2 ''b'']"]
    by (simp add: ex_icon_simps ex_icon_eq ex_view_of_def addedApps_def removedApps_def)
qed

text \<open>
  C2, as stated, fails where an icon that stays changes its place: with old icons
  a, b and new icons b, a nothing is added and nothing is removed, and
  \<open>_orderedItems\<close> stays a, b.
\<close>

theorem C2_reorder_counterexample:
  "addedApps [ex_icon 1 ''a'', ex_icon 2 ''b''] [ex_icon 3 ''b'', ex_icon 4 ''a''] = []
   \<and> removedApps [ex_icon 1 ''a'', ex_icon 2 ''b''] [ex_icon 3 ''b'', ex_icon 4 ''a''] = []
   \<and> map item_id (orderedItems (fst (redisplay (ex_view_of [ex_icon 1 ''a'', ex_icon 2 ''b''])
          [ex_icon 3 ''b'', ex_icon 4 ''a''])))
       = [''a.desktop'', ''b.desktop'']
   \<and> map item_id [ex_icon 3 ''b'', ex_icon 4 ''a''] = [''b.desktop'', ''a.desktop'']
   \<and> map item_id (orderedItems (fst (redisplay (ex_view_of [ex_icon 1 ''a'', ex_icon 2 ''b''])
          [ex_icon 3 ''b'', ex_icon 4 ''a''])))
       \<noteq> map item_id [ex_icon 3 ''b'', ex_icon 4 ''a'']"
  by (simp add: ex_icon_simps ex_icon_eq ex_view_of_def addedApps_def removedApps_def
      redisplay_def Let_def)

section \<open>The order of the application grid\<close>

lemma set_sort_insert: "set (sort_insert comparefn item acc) = insert item (set acc)"
  by (induction acc) auto

text \<open>
  The sorted part, read from right to left, stays sorted when an element is inserted.
\<close>

lemma sorted_sort_insert:
  assumes "consistent_comparator comparefn"
    and "sorted_wrt (\<lambda>a b. comparefn b a \<le> 0) acc"
  shows "sorted_wrt (\<lambda>a b. comparefn b a \<le> 0) (sort_insert comparefn item acc)"
  using assms(2)
proof (induction acc)
  case Nil
  then show ?case by simp
next
  case (Cons swap rest)
  have total: "comparefn a b \<le> 0 \<or> comparefn b a \<le> 0" for a b
    using assms(1) unfolding consistent_comparator_def by blast
  have trans: "comparefn a b \<le> 0 \<Longrightarrow> comparefn b c \<le> 0 \<Longrightarrow> comparefn a c \<le> 0" for a b c
    using assms(1) unfolding consistent_comparator_def by blast
  from Cons.prems have below: "\<forall>x\<in>set rest. comparefn x swap \<le> 0"
    and rest: "sorted_wrt (\<lambda>a b. comparefn b a \<le> 0) rest"
    by simp_all
  show ?case
  proof (cases "comparefn swap item \<le> 0")
    case True
    have "\<forall>x\<in>set rest. comparefn x item \<le> 0"
      using below True trans by blast
    then show ?thesis using True below rest by simp
  next
    case False
    then have "comparefn item swap \<le> 0" using total[of swap item] by simp
    then show ?thesis using False below Cons.IH[OF rest] by (simp add: set_sort_insert)
  qed
qed

lemma sorted_foldl_sort_insert:
  assumes "consistent_comparator comparefn"
    and "sorted_wrt (\<lambda>a b. comparefn b a \<le> 0) acc"
  shows "sorted_wrt (\<lambda>a b. comparefn b a \<le> 0)
           (foldl (\<lambda>sorted item. sort_insert comparefn item sorted) acc xs)"
  using assms(2)
  by (induction xs arbitrary: acc) (simp_all add: sorted_sort_insert[OF assms(1)])

lemma set_foldl_sort_insert:
  "set (foldl (\<lambda>sorted item. sort_insert comparefn item sorted) acc xs) = set acc \<union> set xs"
  by (induction xs arbitrary: acc) (auto simp: set_sort_insert)

lemma sorted_js_sort:
  assumes "consistent_comparator comparefn"
  shows "sorted_wrt (\<lambda>a b. comparefn a b \<le> 0) (js_sort comparefn xs)"
  unfolding js_sort_def sorted_wrt_rev
  by (rule sorted_foldl_sort_insert[OF assms]) simp

lemma set_js_sort: "set (js_sort comparefn xs) = set xs"
  by (simp add: js_sort_def set_foldl_sort_insert)

text \<open>
  The comparison function of \<open>getAllApps\<close> answers with a boolean; the test \<open>\<le> 0\<close>
  that the sort makes of it is "the lower-case name is not greater".
\<close>

lemma getAllApps_comparator:
  "consistent_comparator
     (\<lambda>a b. if toLowerCase (get_name a) > toLowerCase (get_name b) then 1 else (0::int))"
  unfolding consistent_comparator_def by auto

lemma sorted_getAllApps:
  "sorted_wrt (\<lambda>a b. toLowerCase (get_name a) \<le> toLowerCase (get_name b)) (getAllApps allApps)"
proof -
  have "sorted_wrt
      (\<lambda>a b. (if toLowerCase (get_name a) > toLowerCase (get_name b) then 1 else (0::int)) \<le> 0)
      (getAllApps allApps)"
    unfolding getAllApps_def by (rule sorted_js_sort) (rule getAllApps_comparator)
  then show ?thesis
    by (rule sorted_wrt_mono_rel[rotated]) (simp split: if_splits)
qed

lemma name_AppIcon: "name (AppIcon r a) = get_name a"
  by (simp add: AppIcon_def Let_def)

lemma sorted_names_loadApps_icons:
  assumes "sorted_wrt (\<lambda>a b. toLowerCase (get_name a) \<le> toLowerCase (get_name b)) backendApps"
  shows "sorted_wrt (\<lambda>a b. toLowerCase (name a) \<le> toLowerCase (name b))
           (loadApps_icons r0 backendApps)"
proof -
  have "map name (loadApps_icons r0 backendApps) = map (get_name \<circ> snd) (enumerate 0 backendApps)"
    by (simp add: loadApps_icons_def split_beta name_AppIcon comp_def)
  also have "\<dots> = map get_name (map snd (enumerate 0 backendApps))"
    by (simp only: map_map)
  also have "\<dots> = map get_name backendApps"
    by (simp only: map_snd_enumerate)
  finally have names: "map name (loadApps_icons r0 backendApps) = map get_name backendApps" .
  have "sorted_wrt (\<lambda>x y. toLowerCase x \<le> toLowerCase y) (map get_name backendApps)"
    using assms by (simp add: sorted_wrt_map)
  then have "sorted_wrt (\<lambda>x y. toLowerCase x \<le> toLowerCase y) (map name (loadApps_icons r0 backendApps))"
    by (simp only: names)
  then show ?thesis by (simp add: sorted_wrt_map)
qed

text \<open>The favorites come in the order of the favorite list, one icon for each id that has one.\<close>

lemma favIcons_order:
  "map (\<lambda>ic. toLowerCase (item_id ic)) (favIcons icons favoriteAppIds)
     = filter (\<lambda>appId. \<exists>ic\<in>set icons. toLowerCase (item_id ic) = appId) favoriteAppIds"
proof (induction favoriteAppIds)
  case Nil
  then show ?case by (simp add: favIcons_def List.map_filter_simps)
next
  case (Cons appId rest)
  show ?case
  proof (cases "find (\<lambda>ic. toLowerCase (item_id ic) = appId) icons")
    case None
    then have "\<not> (\<exists>ic\<in>set icons. toLowerCase (item_id ic) = appId)"
      by (simp add: find_None_iff)
    then show ?thesis using None Cons by (simp add: favIcons_def List.map_filter_simps)
  next
    case (Some ic)
    then have "toLowerCase (item_id ic) = appId" "ic \<in> set icons"
      by (auto simp: find_Some_iff)
    then show ?thesis using Some Cons by (auto simp: favIcons_def List.map_filter_simps)
  qed
qed

lemma loadApps_concat:
  "loadApps localeCompare r0 (Some backendApps) windowApps favoriteKeys =
     favIcons (loadApps_icons r0 backendApps) (map toLowerCase favoriteKeys)
     @ runningIcons (loadApps_icons r0 backendApps) (loadApps_runningAppIds windowApps)
         (map toLowerCase favoriteKeys)
     @ otherIcons localeCompare (loadApps_icons r0 backendApps)
         (loadApps_runningAppIds windowApps) (map toLowerCase favoriteKeys)"
  by (simp add: loadApps_def Let_def)

lemma sorted_otherIcons:
  assumes "consistent_comparator localeCompare"
  shows "sorted_wrt (\<lambda>a b. localeCompare (name a) (name b) \<le> 0)
           (otherIcons localeCompare icons runningAppIds favoriteAppIds)"
proof -
  have "consistent_comparator (\<lambda>a b. localeCompare (name a) (name b))"
    using assms unfolding consistent_comparator_def by blast
  then show ?thesis unfolding otherIcons_def by (rule sorted_js_sort)
qed

lemma set_otherIcons:
  "set (otherIcons localeCompare icons runningAppIds favoriteAppIds) =
     {ic \<in> set icons. toLowerCase (item_id ic) \<notin> set favoriteAppIds
                      \<and> toLowerCase (item_id ic) \<notin> set runningAppIds}"
  by (auto simp: otherIcons_def set_js_sort Let_def)

lemma sorted_runningIcons:
  assumes "sorted_wrt (\<lambda>a b. toLowerCase (name a) \<le> toLowerCase (name b)) icons"
  shows "sorted_wrt (\<lambda>a b. toLowerCase (name a) \<le> toLowerCase (name b))
           (runningIcons icons runningAppIds favoriteAppIds)"
  unfolding runningIcons_def using assms by (rule sorted_wrt_filter)

lemma set_runningIcons:
  "set (runningIcons icons runningAppIds favoriteAppIds) =
     {ic \<in> set icons. \<exists>appId. getRunningAppId (app ic) = Some appId
                        \<and> appId \<in> set runningAppIds \<and> appId \<notin> set favoriteAppIds}"
  by (auto simp: runningIcons_def split: option.splits)

text \<open>
  C3. What \<open>_loadApps\<close> returns, the backend's apps being what \<open>getAllApps\<close> returns:
  first the icons of the favorites, in the order of the favorite list; then the icons
  of the running apps that are not favorites, in alphabetical order (of the lower-case
  names, the order \<open>getAllApps\<close> gives); then the icons that are neither, in
  alphabetical order (of \<open>localeCompare\<close>).
\<close>

theorem C3_loadApps_order:
  assumes "consistent_comparator localeCompare"
  shows
    "(let icons = loadApps_icons r0 (getAllApps allApps);
          running = loadApps_runningAppIds windowApps;
          favs = map toLowerCase favoriteKeys
      in loadApps localeCompare r0 (Some (getAllApps allApps)) windowApps favoriteKeys
           = favIcons icons favs @ runningIcons icons running favs
               @ otherIcons localeCompare icons running favs
         \<and> map (\<lambda>ic. toLowerCase (item_id ic)) (favIcons icons favs)
             = filter (\<lambda>appId. \<exists>ic\<in>set icons. toLowerCase (item_id ic) = appId) favs
         \<and> set (runningIcons icons running favs)
             = {ic \<in> set icons. \<exists>appId. getRunningAppId (app ic) = Some appId
                                  \<and> appId \<in> set running \<and> appId \<notin> set favs}
         \<and> sorted_wrt (\<lambda>a b. toLowerCase (name a) \<le> toLowerCase (name b))
               (runningIcons icons running favs)
         \<and> set (otherIcons localeCompare icons running favs)
             = {ic \<in> set icons. toLowerCase (item_id ic) \<notin> set favs
                                \<and> toLowerCase (item_id ic) \<notin> set running}
         \<and> sorted_wrt (\<lambda>a b. localeCompare (name a) (name b) \<le> 0)
               (otherIcons localeCompare icons running favs))"
  unfolding Let_def
  using loadApps_concat favIcons_order set_runningIcons set_otherIcons
    sorted_runningIcons[OF sorted_names_loadApps_icons[OF sorted_getAllApps]]
    sorted_otherIcons[OF assms]
  by (intro conjI) blast+

lemma consistent_ex_localeCompare: "consistent_comparator ex_localeCompare"
  unfolding consistent_comparator_def ex_localeCompare_def by auto

text \<open>
  Favorites a, b, c, a window of d, and the backend's apps g, e, c, a, f, d, b: the
  icons come out as a, b, c, then d, then e, f, g.
\<close>

theorem C3_loadApps_order_witness:
  "consistent_comparator ex_localeCompare
   \<and> loadApps ex_localeCompare 10 (Some (getAllApps ex_allApps)) [Some ''d.desktop'', None]
        [''a.desktop'', ''b.desktop'', ''c.desktop'']
       = favIcons (loadApps_icons 10 (getAllApps ex_allApps))
           (map toLowerCase [''a.desktop'', ''b.desktop'', ''c.desktop''])
         @ runningIcons (loadApps_icons 10 (getAllApps ex_allApps))
             (loadApps_runningAppIds [Some ''d.desktop'', None])
             (map toLowerCase [''a.desktop'', ''b.desktop'', ''c.desktop''])
         @ otherIcons ex_localeCompare (loadApps_icons 10 (getAllApps ex_allApps))
             (loadApps_runningAppIds [Some ''d.desktop'', None])
             (map toLowerCase [''a.desktop'', ''b.desktop'', ''c.desktop''])
   \<and> map name (favIcons (loadApps_icons 10 (getAllApps ex_allApps))
           (map toLowerCase [''a.desktop'', ''b.desktop'', ''c.desktop''])) = [''a'', ''b'', ''c'']
   \<and> map name (runningIcons (loadApps_icons 10 (getAllApps ex_allApps))
             (loadApps_runningAppIds [Some ''d.desktop'', None])
             (map toLowerCase [''a.desktop'', ''b.desktop'', ''c.desktop''])) = [''d'']
   \<and> map name (otherIcons ex_localeCompare (loadApps_icons 10 (getAllApps ex_allApps))
             (loadApps_runningAppIds [Some ''d.desktop'', None])
             (map toLowerCase [''a.desktop'', ''b.desktop'', ''c.desktop''])) = [''e'', ''f'', ''g'']
   \<and> map name (loadApps ex_localeCompare 10 (Some (getAllApps ex_allApps))
          [Some ''d.desktop'', None] [''a.desktop'', ''b.desktop'', ''c.desktop''])
       = [''a'', ''b'', ''c'', ''d'', ''e'', ''f'', ''g'']"
proof -
  have f: "map name (favIcons (loadApps_icons 10 (getAllApps ex_allApps))
           (map toLowerCase [''a.desktop'', ''b.desktop'', ''c.desktop''])) = [''a'', ''b'', ''c'']"
    by code_simp
  have r: "map name (runningIcons (loadApps_icons 10 (getAllApps ex_allApps))
             (loadApps_runningAppIds [Some ''d.desktop'', None])
             (map toLowerCase [''a.desktop'', ''b.desktop'', ''c.desktop''])) = [''d'']"
    by code_simp
  have o: "map name (otherIcons ex_localeCompare (loadApps_icons 10 (getAllApps ex_allApps))
             (loadApps_runningAppIds [Some ''d.desktop'', None])
             (map toLowerCase [''a.desktop'', ''b.desktop'', ''c.desktop''])) = [''e'', ''f'', ''g'']"
    by code_simp
  note inst = C3_loadApps_order [OF consistent_ex_localeCompare, of 10 ex_allApps
      "[Some ''d.desktop'', None]" "[''a.desktop'', ''b.desktop'', ''c.desktop'']",
      unfolded Let_def]
  from inst have parts: "loadApps ex_localeCompare 10 (Some (getAllApps ex_allApps))
        [Some ''d.desktop'', None] [''a.desktop'', ''b.desktop'', ''c.desktop'']
       = favIcons (loadApps_icons 10 (getAllApps ex_allApps))
           (map toLowerCase [''a.desktop'', ''b.desktop'', ''c.desktop''])
         @ runningIcons (loadApps_icons 10 (getAllApps ex_allApps))
             (loadApps_runningAppIds [Some ''d.desktop'', None])
             (map toLowerCase [''a.desktop'', ''b.desktop'', ''c.desktop''])
         @ otherIcons ex_localeCompare (loadApps_icons 10 (getAllApps ex_allApps))
             (loadApps_runningAppIds [Some ''d.desktop'', None])
             (map toLowerCase [''a.desktop'', ''b.desktop'', ''c.desktop''])"
    by (rule conjunct1)
  have all: "map name (loadApps ex_localeCompare 10 (Some (getAllApps ex_allApps))
          [Some ''d.desktop'', None] [''a.desktop'', ''b.desktop'', ''c.desktop''])
       = [''a'', ''b'', ''c'', ''d'', ''e'', ''f'', ''g'']"
    unfolding parts map_append f r o by simp
  show ?thesis
    using consistent_ex_localeCompare parts f r o all by (intro conjI)
qed

section \<open>Showing and hiding the interface\<close>

lemma st_navigate_focus_keeps:
  "laters (fst (st_navigate_focus s w d)) = laters s"
  "isShown (fst (st_navigate_focus s w d)) = isShown s"
  "actor_visible (fst (st_navigate_focus s w d)) = actor_visible s"
  "can_focus (fst (st_navigate_focus s w d)) = can_focus s"
  "nav_log (fst (st_navigate_focus s w d)) = nav_log s @ [(w, d)]"
  "snd (st_navigate_focus s w d) = can_focus s w"
  by (simp_all add: st_navigate_focus_def Let_def)

lemma navigate_focus_of_keeps:
  "laters (fst (navigate_focus_of s w d)) = laters s"
  "isShown (fst (navigate_focus_of s w d)) = isShown s"
  "actor_visible (fst (navigate_focus_of s w d)) = actor_visible s"
  "nav_log (fst (navigate_focus_of s w d))
     = nav_log s @ (if w = ListWidget then [(ListWidget, d), (MainMenuList, TAB_FORWARD)]
                    else [(w, d)])"
  "snd (navigate_focus_of s w d) = (w \<noteq> ListWidget \<and> can_focus s w)"
  by (simp_all add: navigate_focus_of_def Let_def st_navigate_focus_keeps)

text \<open>
  \<open>_grabFocus\<close> queues one retry when the focus was not set, and nothing otherwise.
\<close>

lemma grabFocus_pending:
  "pending (laters (grabFocus s w d))
     = pending (laters s) @
       (if snd (navigate_focus_of s w d) then []
        else [(Suc (last_later_id (laters s)), GrabFocusRetry w d)])"
  by (cases "snd (navigate_focus_of s w d)")
    (simp_all add: grabFocus_def Let_def navigate_focus_of_keeps later_add_def)

lemma grabFocus_keeps:
  "isShown (grabFocus s w d) = isShown s"
  "actor_visible (grabFocus s w d) = actor_visible s"
  "nav_log (grabFocus s w d) = nav_log (fst (navigate_focus_of s w d))"
  by (cases "snd (navigate_focus_of s w d)";
      simp add: grabFocus_def Let_def navigate_focus_of_keeps)+

lemma view_show_keeps:
  "isShown (view_show v s) = isShown s"
  "actor_visible (view_show v s) = actor_visible s"
  by (cases v; cases "list_visible s"; cases "apps_visible s";
      simp add: list_show_def apps_show_def grabFocus_keeps)+

lemma view_show_pending:
  "\<exists>added. pending (laters (view_show v s)) = pending (laters s) @ added"
  by (cases v; cases "list_visible s"; cases "apps_visible s";
      simp add: list_show_def apps_show_def grabFocus_pending)

lemma view_hide_keeps:
  "isShown (view_hide v s) = isShown s"
  "actor_visible (view_hide v s) = actor_visible s"
  "laters (view_hide v s) = laters s"
  by (cases v; simp)+

lemma showView_keeps:
  "isShown (showView s v) = isShown s"
  "actor_visible (showView s v) = actor_visible s"
  by (cases "currentView s"; simp add: showView_def Let_def view_show_keeps view_hide_keeps)+

lemma showView_pending:
  "\<exists>added. pending (laters (showView s v)) = pending (laters s) @ added"
proof -
  define s1 where "s1 = (case currentView s of
                 Some c \<Rightarrow> if c \<noteq> v then view_hide c s else s
               | None \<Rightarrow> s)\<lparr>currentView := Some v\<rparr>"
  have "laters s1 = laters s"
    by (cases "currentView s") (simp_all add: s1_def view_hide_keeps)
  moreover have "showView s v = view_show v s1"
    by (simp add: showView_def Let_def s1_def)
  ultimately show ?thesis using view_show_pending[of v s1] by simp
qed

text \<open>What \<open>hideModal\<close> does to the visibility, to the flag and to the waiting callbacks.\<close>

lemma hideModal_keeps:
  "actor_visible (hideModal userHidden s) = False"
  "isShown (hideModal userHidden s) = (isShown s \<and> \<not> userHidden)"
  by (cases userHidden; cases "modalToken s";
      simp add: hideModal_def Let_def homeScreen_def showView_keeps removeModal_def)+

lemma hideModal_pending:
  "\<exists>added. pending (laters (hideModal userHidden s)) = pending (laters s) @ added"
proof -
  define s1 where "s1 = (removeModal ((if userHidden
      then s\<lparr>actor_ease_to := None, actor_opacity := 0, isShown := False\<rparr>
      else s\<lparr>actor_ease_to := None, actor_opacity := 0\<rparr>)))
        \<lparr>lightbox_visible := False, actor_visible := False\<rparr>"
  have "laters s1 = laters s"
    by (cases userHidden; cases "modalToken s") (simp_all add: s1_def removeModal_def)
  moreover have "hideModal userHidden s = showView s1 apps_view"
    by (cases userHidden) (simp_all add: hideModal_def Let_def homeScreen_def s1_def)
  ultimately show ?thesis using showView_pending[of s1 apps_view] by simp
qed

lemma showModal_keeps:
  "actor_visible (showModal skipAnimation s) = True"
  "isShown (showModal skipAnimation s) = True"
  by (cases skipAnimation; cases "modalToken s"; cases "pushModal_result s";
      cases "actor_visible s";
      simp add: showModal_def Let_def grabModal_def actor_show_def grabFocus_keeps)+

text \<open>
  After a hide by the user the interface is hidden and not marked as shown, and the
  signals about running apps keep it that way.
\<close>

lemma updateRunningCount_user_hidden:
  assumes "\<not> isShown s" and "\<not> actor_visible s"
  shows "\<not> isShown (updateRunningCount s appState running)
         \<and> \<not> actor_visible (updateRunningCount s appState running)"
  using assms
  by (cases "appState = Some STARTING"; cases "running = 0")
    (simp_all add: updateRunningCount_def Let_def hideModal_keeps)

lemma signals_user_hidden:
  assumes "\<not> isShown s" and "\<not> actor_visible s"
  shows "\<not> actor_visible (foldl (\<lambda>s sig. updateRunningCount s (fst sig) (snd sig)) s signals)"
  using assms
proof (induction signals arbitrary: s)
  case Nil
  then show ?case by simp
next
  case (Cons sig signals)
  from updateRunningCount_user_hidden[OF Cons.prems, of "fst sig" "snd sig"]
  show ?case using Cons.IH by simp
qed

lemma updateRunningCount_nonzero:
  assumes "appState \<noteq> Some STARTING" and "running \<noteq> 0"
  shows "\<not> actor_visible (updateRunningCount s appState running)"
    and "isShown (updateRunningCount s appState running) = isShown s"
  using assms by (simp_all add: updateRunningCount_def Let_def hideModal_keeps)

lemma updateRunningCount_zero:
  assumes "appState \<noteq> Some STARTING" and "isShown s"
  shows "actor_visible (updateRunningCount s appState 0)"
  using assms by (simp add: updateRunningCount_def Let_def showModal_keeps)

text \<open>
  What the signals about running applications do. A signal (not for an application
  that is only starting) with a running count different from zero hides the interface
  and leaves the flag \<open>_isShown\<close> as it is; a signal with the count zero shows the
  interface when the flag is set. After \<open>hideModal (true)\<close> the flag is not set, and no
  sequence of signals shows the interface again.
\<close>

lemma auto_hide_and_show:
  "(appState \<noteq> Some STARTING \<and> running \<noteq> 0 \<longrightarrow>
      \<not> actor_visible (updateRunningCount s appState running)
      \<and> isShown (updateRunningCount s appState running) = isShown s)
   \<and> (appState \<noteq> Some STARTING \<and> isShown s \<longrightarrow>
        actor_visible (updateRunningCount s appState 0))
   \<and> \<not> actor_visible
         (foldl (\<lambda>s sig. updateRunningCount s (fst sig) (snd sig)) (hideModal True s) signals)"
proof (intro conjI impI)
  assume a: "appState \<noteq> Some STARTING \<and> running \<noteq> 0"
  then show "\<not> actor_visible (updateRunningCount s appState running)"
    and "isShown (updateRunningCount s appState running) = isShown s"
    by (simp_all add: updateRunningCount_nonzero)
next
  assume "appState \<noteq> Some STARTING \<and> isShown s"
  then show "actor_visible (updateRunningCount s appState 0)"
    by (simp add: updateRunningCount_zero)
next
  show "\<not> actor_visible
         (foldl (\<lambda>s sig. updateRunningCount s (fst sig) (snd sig)) (hideModal True s) signals)"
    by (rule signals_user_hidden) (simp_all add: hideModal_keeps)
qed

text \<open>
  The exit shortcut hides the interface and leaves the flag \<open>_isShown\<close> set, whatever
  the state: \<open>Mouseless.hide\<close> calls \<open>hideModal ()\<close>, where the other hides by the user
  call \<open>hideModal (true)\<close>.
\<close>

lemma exitKeyHandler_keeps:
  "\<not> actor_visible (exitKeyHandler s)" "isShown (exitKeyHandler s) = isShown s"
  by (simp_all add: exitKeyHandler_def hide_def hideModal_keeps)

text \<open>
  C6 on the code. The interface is shown, an application starts and stops: the
  interface is hidden and then shown again, as the claim says. With a hide by the user
  in between that goes through \<open>hideModal (true)\<close> (the key Escape, a click on the
  lightbox, the item "Exit Interface", the start of an application from the grid) it
  stays hidden, as the claim says. With the exit shortcut in between it does not: the
  shortcut hides the interface, \<open>_isShown\<close> stays \<open>true\<close>, and the signal with the count
  zero shows the interface again.
\<close>

theorem C6_exit_shortcut_code:
  "actor_visible (run_events [Show])
   \<and> \<not> actor_visible (run_events [Show, AppStateChanged (Some RUNNING) 1])
   \<and> actor_visible
       (run_events [Show, AppStateChanged (Some RUNNING) 1, AppStateChanged (Some STOPPED) 0])
   \<and> \<not> actor_visible
       (run_events [Show, Back, AppStateChanged (Some RUNNING) 1, AppStateChanged (Some STOPPED) 0])
   \<and> \<not> actor_visible
       (run_events [Show, LightboxClick, AppStateChanged (Some RUNNING) 1,
                    AppStateChanged (Some STOPPED) 0])
   \<and> \<not> actor_visible
       (run_events [Show, ExitItem, AppStateChanged (Some RUNNING) 1,
                    AppStateChanged (Some STOPPED) 0])
   \<and> \<not> actor_visible
       (run_events [Show, Activate, AppStateChanged (Some RUNNING) 1,
                    AppStateChanged (Some STOPPED) 0])
   \<and> \<not> actor_visible (run_events [Show, ExitKey])
   \<and> isShown (run_events [Show, ExitKey])
   \<and> \<not> actor_visible (run_events [Show, ExitKey, AppStateChanged (Some RUNNING) 1])
   \<and> actor_visible
       (run_events [Show, ExitKey, AppStateChanged (Some RUNNING) 1,
                    AppStateChanged (Some STOPPED) 0])"
  by (intro conjI; code_simp)

section \<open>Deferred focus retries\<close>

lemma moveFocusToItems_pending:
  "pending (laters (moveFocusToItems s))
     = pending (laters s) @
       (if menu_items s \<noteq> [] \<and> stage_key_focus s = Some MainMenuList \<and> \<not> can_focus s MainMenuList
        then [(Suc (last_later_id (laters s)), MoveFocusToItems)] else [])"
  by (cases "menu_items s = []"; cases "stage_key_focus s = Some MainMenuList";
      cases "can_focus s MainMenuList")
    (simp_all add: moveFocusToItems_def Let_def navigate_focus_of_keeps later_add_def)

lemma moveFocusToItems_nav_log:
  "\<exists>calls. nav_log (moveFocusToItems s) = nav_log s @ calls"
  by (cases "menu_items s = []"; cases "stage_key_focus s = Some MainMenuList";
      cases "can_focus s MainMenuList")
    (simp_all add: moveFocusToItems_def Let_def navigate_focus_of_keeps)

text \<open>Every callback only adds to the record of calls; a focus retry adds its own call.\<close>

lemma run_later_nav_log:
  "\<exists>calls. nav_log (run_later s f) = nav_log s @ calls
           \<and> (\<forall>actor direction. f = GrabFocusRetry actor direction
                  \<longrightarrow> (actor, direction) \<in> set calls)"
proof (cases f)
  case UpdateIconSizes
  then show ?thesis by simp
next
  case (GrabFocusRetry actor direction)
  then show ?thesis by (simp add: navigate_focus_of_keeps)
next
  case MoveFocusToItems
  then show ?thesis using moveFocusToItems_nav_log[of s] by simp
qed

lemma foldl_run_later_nav_log:
  "\<exists>calls. nav_log (foldl run_later s fs) = nav_log s @ calls
           \<and> (\<forall>actor direction. GrabFocusRetry actor direction \<in> set fs
                  \<longrightarrow> (actor, direction) \<in> set calls)"
proof (induction fs arbitrary: s)
  case Nil
  then show ?case by simp
next
  case (Cons f fs)
  obtain c1 where c1: "nav_log (run_later s f) = nav_log s @ c1"
    "\<forall>actor direction. f = GrabFocusRetry actor direction \<longrightarrow> (actor, direction) \<in> set c1"
    using run_later_nav_log[of s f] by blast
  obtain c2 where c2: "nav_log (foldl run_later (run_later s f) fs) = nav_log (run_later s f) @ c2"
    "\<forall>actor direction. GrabFocusRetry actor direction \<in> set fs \<longrightarrow> (actor, direction) \<in> set c2"
    using Cons.IH[of "run_later s f"] by blast
  have "nav_log (foldl run_later s (f # fs)) = nav_log s @ (c1 @ c2)"
    using c1(1) c2(1) by simp
  moreover have "\<forall>actor direction. GrabFocusRetry actor direction \<in> set (f # fs)
                  \<longrightarrow> (actor, direction) \<in> set (c1 @ c2)"
    using c1(2) c2(2) by auto
  ultimately show ?case by blast
qed

lemma before_redraw_fires:
  assumes "(i, GrabFocusRetry actor direction) \<in> set (pending (laters s))"
  shows "(actor, direction) \<in> set (drop (length (nav_log s)) (nav_log (before_redraw s)))"
proof -
  define s0 where "s0 = s\<lparr>laters := (laters s)\<lparr>pending := []\<rparr>\<rparr>"
  have in_fs: "GrabFocusRetry actor direction \<in> set (map snd (pending (laters s)))"
    using assms by force
  obtain calls where calls:
    "nav_log (foldl run_later s0 (map snd (pending (laters s)))) = nav_log s0 @ calls"
    "(actor, direction) \<in> set calls"
    using foldl_run_later_nav_log[of s0 "map snd (pending (laters s))"] in_fs by blast
  have "before_redraw s = foldl run_later s0 (map snd (pending (laters s)))"
    by (simp add: before_redraw_def Let_def s0_def)
  moreover have "nav_log s0 = nav_log s" by (simp add: s0_def)
  ultimately show ?thesis using calls by simp
qed

text \<open>
  C5, as the code has it. \<open>hideModal\<close> removes nothing from the callbacks that wait
  for the next redraw (the identifier that \<open>Meta.later_add\<close> returns is not kept, and
  \<open>hideModal\<close> calls neither \<open>Meta.later_remove\<close> for it nor anything else that would
  cancel): whatever waited before the hide waits after it, and a focus retry that
  waited before the hide calls \<open>navigate_focus\<close> at the redraw that follows the hide.
\<close>

theorem C5_hide_keeps_pending_retries:
  "(\<exists>added. pending (laters (hideModal userHidden s)) = pending (laters s) @ added)
   \<and> ((i, GrabFocusRetry actor direction) \<in> set (pending (laters s)) \<longrightarrow>
        (actor, direction)
          \<in> set (drop (length (nav_log (hideModal userHidden s)))
                   (nav_log (before_redraw (hideModal userHidden s)))))"
proof -
  obtain added where
    added: "pending (laters (hideModal userHidden s)) = pending (laters s) @ added"
    using hideModal_pending by blast
  have "(actor, direction)
          \<in> set (drop (length (nav_log (hideModal userHidden s)))
                   (nav_log (before_redraw (hideModal userHidden s))))"
    if "(i, GrabFocusRetry actor direction) \<in> set (pending (laters s))"
    by (rule before_redraw_fires[of i]) (simp add: added that)
  then show ?thesis using added by blast
qed

lemma ex_shown_pending:
  "pending (laters (showModal False ex_screen)) = [(1, GrabFocusRetry AppsWidget TAB_FORWARD)]"
  by code_simp

text \<open>
  The interface is shown before anything is laid out, so \<open>_grabFocus\<close> defers a retry;
  the user hides the interface; the retry is called at the next redraw.
\<close>

theorem C5_hide_keeps_pending_retries_witness:
  "(1, GrabFocusRetry AppsWidget TAB_FORWARD) \<in> set (pending (laters (showModal False ex_screen)))
   \<and> (AppsWidget, TAB_FORWARD)
        \<in> set (drop (length (nav_log (hideModal True (showModal False ex_screen))))
                 (nav_log (before_redraw (hideModal True (showModal False ex_screen)))))"
  using C5_hide_keeps_pending_retries
          [of True "showModal False ex_screen" 1 AppsWidget TAB_FORWARD]
  by (simp add: ex_shown_pending)

text \<open>
  C5, as stated, fails: the retry that \<open>_grabFocus\<close> deferred when the interface was
  shown is still waiting after \<open>hideModal (true)\<close>, and the redraw after the hide runs
  it (the second call in the record).
\<close>

theorem C5_retry_after_hide_counterexample:
  "pending (laters (showModal False ex_screen)) = [(1, GrabFocusRetry AppsWidget TAB_FORWARD)]
   \<and> pending (laters (hideModal True (showModal False ex_screen)))
       = [(1, GrabFocusRetry AppsWidget TAB_FORWARD)]
   \<and> \<not> actor_visible (hideModal True (showModal False ex_screen))
   \<and> nav_log (hideModal True (showModal False ex_screen)) = [(AppsWidget, TAB_FORWARD)]
   \<and> nav_log (before_redraw (hideModal True (showModal False ex_screen)))
       = [(AppsWidget, TAB_FORWARD), (AppsWidget, TAB_FORWARD)]"
  by (intro conjI; code_simp)

section \<open>The number of focus retries\<close>

text \<open>
  What the two retries queue. \<open>_grabFocus\<close> queues one callback when the focus was
  not set, and that callback calls \<open>navigate_focus\<close> and queues nothing. The callback
  of \<open>MenuList._moveFocusToItems\<close> is \<open>_moveFocusToItems\<close> itself, which queues the
  next one when the list has items, holds the key focus and could not move the focus,
  and only then.
\<close>

lemma focus_retry_queueing:
  "pending (laters (grabFocus s actor direction))
     = pending (laters s) @
       (if snd (navigate_focus_of s actor direction) then []
        else [(Suc (last_later_id (laters s)), GrabFocusRetry actor direction)])
   \<and> laters (run_later s (GrabFocusRetry actor direction)) = laters s
   \<and> pending (laters (run_later s MoveFocusToItems))
       = pending (laters s) @
         (if menu_items s \<noteq> [] \<and> stage_key_focus s = Some MainMenuList
             \<and> \<not> can_focus s MainMenuList
          then [(Suc (last_later_id (laters s)), MoveFocusToItems)] else [])"
  by (simp add: grabFocus_pending moveFocusToItems_pending navigate_focus_of_keeps)


text \<open>
  \<open>_moveFocusToItems\<close> returns at its second test unless the list itself holds the key
  focus. No operation of the interface gives it the key focus.
\<close>

lemma st_navigate_focus_key_focus:
  "stage_key_focus s \<noteq> Some MainMenuList
    \<Longrightarrow> stage_key_focus (fst (st_navigate_focus s w d)) \<noteq> Some MainMenuList"
  by (simp add: st_navigate_focus_def Let_def)

lemma navigate_focus_of_key_focus:
  "stage_key_focus s \<noteq> Some MainMenuList
    \<Longrightarrow> stage_key_focus (fst (navigate_focus_of s w d)) \<noteq> Some MainMenuList"
  by (cases "w = ListWidget")
    (simp_all add: navigate_focus_of_def Let_def st_navigate_focus_key_focus)

lemma grabFocus_key_focus:
  "stage_key_focus s \<noteq> Some MainMenuList
    \<Longrightarrow> stage_key_focus (grabFocus s w d) \<noteq> Some MainMenuList"
  by (cases "snd (navigate_focus_of s w d)")
    (simp_all add: grabFocus_def Let_def navigate_focus_of_key_focus)

lemma view_show_key_focus:
  "stage_key_focus s \<noteq> Some MainMenuList
    \<Longrightarrow> stage_key_focus (view_show v s) \<noteq> Some MainMenuList"
  by (cases v; cases "list_visible s"; cases "apps_visible s")
    (simp_all add: list_show_def apps_show_def grabFocus_key_focus)

lemma view_hide_key_focus: "stage_key_focus (view_hide v s) = stage_key_focus s"
  by (cases v) simp_all

lemma showView_key_focus:
  "stage_key_focus s \<noteq> Some MainMenuList
    \<Longrightarrow> stage_key_focus (showView s v) \<noteq> Some MainMenuList"
  unfolding showView_def Let_def
  by (rule view_show_key_focus) (simp add: view_hide_key_focus split: option.split)

lemma hideModal_key_focus:
  "stage_key_focus s \<noteq> Some MainMenuList
    \<Longrightarrow> stage_key_focus (hideModal userHidden s) \<noteq> Some MainMenuList"
  unfolding hideModal_def Let_def homeScreen_def
  by (rule showView_key_focus) (simp add: removeModal_def)

lemma showModal_key_focus: "stage_key_focus (showModal skipAnimation s) = Some ScreenActor"
  by (simp add: showModal_def Let_def)

lemma updateRunningCount_key_focus:
  "stage_key_focus s \<noteq> Some MainMenuList
    \<Longrightarrow> stage_key_focus (updateRunningCount s appState running) \<noteq> Some MainMenuList"
  by (cases "appState = Some STARTING"; cases "running = 0"; cases "isShown s")
    (simp_all add: updateRunningCount_def Let_def hideModal_key_focus showModal_key_focus)

lemma funpow_hideModal_key_focus:
  "stage_key_focus s \<noteq> Some MainMenuList
    \<Longrightarrow> stage_key_focus (((hideModal userHidden) ^^ n) s) \<noteq> Some MainMenuList"
  by (induction n) (simp_all add: hideModal_key_focus)

text \<open>Without the key focus on the list, \<open>_moveFocusToItems\<close> does nothing.\<close>

lemma moveFocusToItems_returns:
  "stage_key_focus s \<noteq> Some MainMenuList \<Longrightarrow> moveFocusToItems s = s"
  by (simp add: moveFocusToItems_def Let_def)

lemma run_later_key_focus:
  assumes "stage_key_focus s \<noteq> Some MainMenuList"
  shows "stage_key_focus (run_later s f) \<noteq> Some MainMenuList"
    and "laters (run_later s f) = laters s"
    and "length (nav_log (run_later s f)) \<le> length (nav_log s) + 2"
  using assms
  by (cases f; simp add: navigate_focus_of_key_focus navigate_focus_of_keeps
      moveFocusToItems_returns)+

lemma foldl_run_later_key_focus:
  assumes "stage_key_focus s \<noteq> Some MainMenuList"
  shows "stage_key_focus (foldl run_later s fs) \<noteq> Some MainMenuList
       \<and> laters (foldl run_later s fs) = laters s
       \<and> length (nav_log (foldl run_later s fs)) \<le> length (nav_log s) + 2 * length fs"
  using assms
proof (induction fs arbitrary: s)
  case Nil
  then show ?case by simp
next
  case (Cons f fs)
  note step = run_later_key_focus[OF Cons.prems, of f]
  from Cons.IH[OF step(1)] step(2,3) show ?case by simp
qed

lemma before_redraw_key_focus:
  assumes "stage_key_focus s \<noteq> Some MainMenuList"
  shows "stage_key_focus (before_redraw s) \<noteq> Some MainMenuList"
    and "pending (laters (before_redraw s)) = []"
    and "length (nav_log (before_redraw s))
           \<le> length (nav_log s) + 2 * length (pending (laters s))"
proof -
  define s0 where "s0 = s\<lparr>laters := (laters s)\<lparr>pending := []\<rparr>\<rparr>"
  have s0: "stage_key_focus s0 \<noteq> Some MainMenuList" "pending (laters s0) = []"
    "nav_log s0 = nav_log s"
    using assms by (simp_all add: s0_def)
  have eq: "before_redraw s = foldl run_later s0 (map snd (pending (laters s)))"
    by (simp add: before_redraw_def Let_def s0_def)
  from foldl_run_later_key_focus[OF s0(1), of "map snd (pending (laters s))"] s0(2,3)
  show "stage_key_focus (before_redraw s) \<noteq> Some MainMenuList"
    and "pending (laters (before_redraw s)) = []"
    and "length (nav_log (before_redraw s))
           \<le> length (nav_log s) + 2 * length (pending (laters s))"
    unfolding eq by simp_all
qed

lemma before_redraw_nothing_pending:
  "pending (laters s) = [] \<Longrightarrow> before_redraw s = s"
  by (simp add: before_redraw_def Let_def)

lemma funpow_before_redraw:
  assumes "stage_key_focus s \<noteq> Some MainMenuList"
  shows "(before_redraw ^^ Suc n) s = before_redraw s"
proof (induction n)
  case 0
  show ?case by simp
next
  case (Suc n)
  have "(before_redraw ^^ Suc (Suc n)) s = before_redraw ((before_redraw ^^ Suc n) s)"
    by (simp only: funpow.simps o_apply)
  also have "\<dots> = before_redraw (before_redraw s)" by (simp only: Suc)
  also have "\<dots> = before_redraw s"
    by (rule before_redraw_nothing_pending) (rule before_redraw_key_focus(2)[OF assms])
  finally show ?case .
qed

lemma ui_step_key_focus:
  assumes "stage_key_focus s \<noteq> Some MainMenuList"
  shows "stage_key_focus (ui_step s e) \<noteq> Some MainMenuList"
proof (cases e)
  case (AddItem i)
  then show ?thesis using assms by (simp add: moveFocusToItems_returns)
qed (use assms in \<open>simp_all add: showModal_key_focus hideModal_key_focus
      funpow_hideModal_key_focus updateRunningCount_key_focus showView_key_focus
      before_redraw_key_focus exit_def homeScreen_def showSettings_def hide_def
      exitKeyHandler_def\<close>)

lemma run_events_key_focus: "stage_key_focus (run_events events) \<noteq> Some MainMenuList"
proof -
  have "stage_key_focus (foldl ui_step s events) \<noteq> Some MainMenuList"
    if "stage_key_focus s \<noteq> Some MainMenuList" for s
    using that by (induction events arbitrary: s) (simp_all add: ui_step_key_focus)
  then show ?thesis by (simp add: run_events_def new_MouselessScreen_def)
qed

text \<open>
  C7. In every state that the interface reaches, and whatever can be focused then or
  later (also when nothing ever can), the callbacks that wait for a redraw run once at
  the next redraw and queue nothing: after that redraw nothing waits, and every
  further redraw leaves the state as it is. A retry of \<open>_grabFocus\<close> calls
  \<open>navigate_focus\<close> and queues nothing, in any state; the redraw makes at most two
  calls of \<open>navigate_focus\<close> for each callback that waited (the one on the
  \<open>ListViewManager\<close> calls the one of its main view); and \<open>_moveFocusToItems\<close>
  returns before it retries anything.
\<close>

theorem C7_focus_retries_bounded:
  "pending (laters (before_redraw (run_events events))) = []
   \<and> (before_redraw ^^ Suc n) (run_events events) = before_redraw (run_events events)
   \<and> length (nav_log (before_redraw (run_events events)))
       \<le> length (nav_log (run_events events)) + 2 * length (pending (laters (run_events events)))
   \<and> laters (run_later s (GrabFocusRetry actor direction)) = laters s
   \<and> moveFocusToItems (run_events events) = run_events events"
  using before_redraw_key_focus(2,3) [OF run_events_key_focus [of events]]
    funpow_before_redraw [OF run_events_key_focus [of events], of n]
    moveFocusToItems_returns [OF run_events_key_focus [of events]]
  by (simp add: navigate_focus_of_keeps)

text \<open>
  The interface is shown before anything is laid out, and nothing is ever laid out:
  the call of \<open>navigate_focus\<close> in \<open>_grabFocus\<close> and one retry, however many redraws
  follow. The same with the settings list shown afterwards.
\<close>

lemma focus_retries_example:
  "nav_log (run_events [Show]) = [(AppsWidget, TAB_FORWARD)]"
  "nav_log ((before_redraw ^^ 5) (run_events [Show]))
     = [(AppsWidget, TAB_FORWARD), (AppsWidget, TAB_FORWARD)]"
  "length (nav_log (run_events [Show, BeforeRedraw, ShowSettings])) = 4"
  "length (nav_log ((before_redraw ^^ 5) (run_events [Show, BeforeRedraw, ShowSettings]))) = 6"
  by code_simp+

end
